theory Spec2Isabelle
  imports Complex_Main
begin

section \<open>Data model\<close>

text \<open>
  The filtering module \<^verbatim>\<open>neurodsp/filt.py\<close> works on one-dimensional float arrays.
  A sample is a float: NaN, a finite number (a real), or one of the two infinities.  The
  scalar arguments (sampling rate, cutoffs, cycle count, duration) are finite numbers.
  Where the module turns the result of float arithmetic into an integer, the rounding of
  that arithmetic is a parameter of the model (see \<open>fl\<close> below); elsewhere finite
  arithmetic is the arithmetic of the reals.  A cutoff argument \<^verbatim>\<open>fc\<close> is a Python number
  or a tuple of numbers.  Every exception the module can raise is a value of \<open>error\<close>;
  the first four are the ones the module raises itself with \<^verbatim>\<open>raise\<close>.
\<close>

datatype sample = NaN | Num real | PInf | NInf

datatype cutoff = Scalar real | Tuple "real list"

datatype error =
    InvalidFilterDefinition  \<comment> \<open>ValueError raised by \<^verbatim>\<open>check_filter_definition\<close>\<close>
  | FilterTooLong            \<comment> \<open>ValueError raised by \<^verbatim>\<open>_fir_checks\<close>\<close>
  | IncompatibleOption       \<comment> \<open>TypeError raised by \<^verbatim>\<open>_iir_checks\<close> for \<^verbatim>\<open>n_seconds\<close>\<close>
  | MissingOrder             \<comment> \<open>TypeError raised by \<^verbatim>\<open>_iir_checks\<close> for the order\<close>
  | IndexError               \<comment> \<open>tuple or array index out of range\<close>
  | ZeroDivisionError        \<comment> \<open>float division by zero\<close>
  | OverflowError            \<comment> \<open>\<^verbatim>\<open>int\<close> of an infinite float\<close>
  | NaNToInteger             \<comment> \<open>ValueError of \<^verbatim>\<open>int\<close> of the float NaN\<close>
  | NoneOperand              \<comment> \<open>TypeError of arithmetic on \<^verbatim>\<open>None\<close>\<close>
  | ShapeMismatch            \<comment> \<open>ValueError of a boolean-mask assignment\<close>
  | EmptyInput               \<comment> \<open>the exception of \<^verbatim>\<open>np.convolve\<close> (raised on an empty array)\<close>
  | EmptyReduction           \<comment> \<open>ValueError of \<^verbatim>\<open>np.min\<close>/\<^verbatim>\<open>np.max\<close> on an empty array\<close>
  | ExternalError            \<comment> \<open>any exception of scipy's designers, filtfilt or the plot\<close>

datatype advisory =
    EdgeArtifactsNotRemoved  \<comment> \<open>warning of \<^verbatim>\<open>_iir_checks\<close>\<close>
  | IIRNotRecommended        \<comment> \<open>warning of \<^verbatim>\<open>design_iir_filter\<close>\<close>
  | NoAttenuation            \<comment> \<open>warning: attenuation never below the low threshold\<close>
  | StopbandNotAttenuated    \<comment> \<open>warning: a bandpass edge is not attenuated\<close>
  | TransitionTooWide real real  \<comment> \<open>warning: transition band wider than pass band\<close>
  | Printed real real        \<comment> \<open>the two \<^verbatim>\<open>print\<close> lines: transition and pass bandwidth\<close>

fun isnan :: "sample \<Rightarrow> bool" where
  "isnan NaN = True"
| "isnan _ = False"

fun is_finite :: "sample \<Rightarrow> bool" where
  "is_finite (Num x) = True"
| "is_finite _ = False"

text \<open>Python indexing \<^verbatim>\<open>xs[i]\<close> with a non-negative index.\<close>

fun getitem :: "'a list \<Rightarrow> nat \<Rightarrow> error + 'a" where
  "getitem [] i = Inl IndexError"
| "getitem (x # xs) 0 = Inr x"
| "getitem (x # xs) (Suc i) = getitem xs i"

section \<open>Filter definition checks\<close>

definition compute_nyquist :: "real \<Rightarrow> real" where
  "compute_nyquist fs = fs / 2"

text \<open>
  \<^verbatim>\<open>check_filter_definition(pass_type, fc)\<close> returns the pair \<^verbatim>\<open>(f_lo, f_hi)\<close>, where the
  bound that does not apply is \<^verbatim>\<open>None\<close>.  For a band filter the test
  \<^verbatim>\<open>isinstance(fc, tuple) and fc[0] >= fc[1]\<close> reads both entries before the test
  \<^verbatim>\<open>len(fc) != 2\<close> is reached.
\<close>

definition check_filter_definition ::
  "string \<Rightarrow> cutoff \<Rightarrow> error + (real option \<times> real option)" where
  "check_filter_definition pass_type fc =
    (if pass_type \<notin> set [''bandpass'', ''bandstop'', ''lowpass'', ''highpass'']
     then Inl InvalidFilterDefinition
     else if pass_type \<in> {''bandpass'', ''bandstop''} then
       (case fc of
          Scalar f \<Rightarrow> Inl InvalidFilterDefinition
        | Tuple xs \<Rightarrow>
            (case getitem xs 0 of
               Inl e \<Rightarrow> Inl e
             | Inr a \<Rightarrow>
                 (case getitem xs 1 of
                    Inl e \<Rightarrow> Inl e
                  | Inr b \<Rightarrow>
                      if a \<ge> b then Inl InvalidFilterDefinition
                      else if length xs \<noteq> 2 then Inl InvalidFilterDefinition
                      else Inr (Some a, Some b))))
     else if pass_type = ''lowpass'' then
       (case fc of
          Scalar f \<Rightarrow> Inr (None, Some f)
        | Tuple xs \<Rightarrow>
            (case getitem xs 1 of Inl e \<Rightarrow> Inl e | Inr b \<Rightarrow> Inr (None, Some b)))
     else
       (case fc of
          Scalar f \<Rightarrow> Inr (Some f, None)
        | Tuple xs \<Rightarrow>
            (case getitem xs 0 of Inl e \<Rightarrow> Inl e | Inr a \<Rightarrow> Inr (Some a, None))))"

text \<open>Float subtraction where an operand may be \<^verbatim>\<open>None\<close>.\<close>

fun py_sub :: "real option \<Rightarrow> real option \<Rightarrow> error + real" where
  "py_sub (Some a) (Some b) = Inr (a - b)"
| "py_sub _ _ = Inl NoneOperand"

definition compute_pass_band :: "string \<Rightarrow> cutoff \<Rightarrow> real \<Rightarrow> error + real" where
  "compute_pass_band pass_type fc fs =
    (case check_filter_definition pass_type fc of
       Inl e \<Rightarrow> Inl e
     | Inr (f_lo, f_hi) \<Rightarrow>
         if pass_type \<in> set [''bandpass'', ''bandstop''] then py_sub f_hi f_lo
         else if pass_type = ''highpass'' then py_sub (Some (compute_nyquist fs)) f_lo
         else (case f_hi of Some h \<Rightarrow> Inr h | None \<Rightarrow> Inl NoneOperand))"

section \<open>External collaborators\<close>

text \<open>
  The kernel designers \<^verbatim>\<open>scipy.signal.firwin\<close> and \<^verbatim>\<open>scipy.signal.butter\<close>, the
  zero-phase filter \<^verbatim>\<open>scipy.signal.filtfilt\<close>, the convolution \<^verbatim>\<open>np.convolve\<close> in mode
  \<^verbatim>\<open>'same'\<close>, the frequency response in decibels (\<^verbatim>\<open>scipy.signal.freqz\<close> followed by
  \<^verbatim>\<open>20 * np.log10(abs(h))\<close>) and the plotting routine \<^verbatim>\<open>plot_frequency_response\<close> are
  not part of the module.  They are parameters of the model: a designer, filter or
  convolution that raises returns \<open>None\<close>, the plot returns whether it completed.

  So is the rounding of float arithmetic: \<open>fl x\<close> is the float that the machine returns
  for an operation whose exact result is the real \<open>x\<close> (for IEEE doubles the nearest
  double, an infinity on overflow).  Nothing is assumed about any of them unless a theorem
  says so.
\<close>

record externals =
  fl :: "real \<Rightarrow> sample"
  convolve :: "sample list \<Rightarrow> sample list \<Rightarrow> sample list option"
  firwin :: "int \<Rightarrow> real option list \<Rightarrow> bool \<Rightarrow> real \<Rightarrow> real list option"
  butter :: "int option \<Rightarrow> real list \<Rightarrow> string \<Rightarrow> (real list \<times> real list) option"
  filtfilt :: "real list \<Rightarrow> real list \<Rightarrow> sample list \<Rightarrow> sample list option"
  freqz_db :: "real list \<Rightarrow> real list \<Rightarrow> real list \<times> real list"
  plot_frequency_response :: "real \<Rightarrow> real list \<Rightarrow> real list option \<Rightarrow> bool"

section \<open>Filter design\<close>

text \<open>
  Float division \<^verbatim>\<open>a / b\<close> of finite numbers where an operand may be \<^verbatim>\<open>None\<close>, with
  the exact quotient as its result.
\<close>

fun py_truediv :: "real option \<Rightarrow> real option \<Rightarrow> error + real" where
  "py_truediv (Some a) (Some b) = (if b = 0 then Inl ZeroDivisionError else Inr (a / b))"
| "py_truediv _ _ = Inl NoneOperand"

text \<open>
  The float product of two finite numbers, and the float quotient of a float by a finite
  number other than zero, as the machine computes them.
\<close>

definition fl_times :: "externals \<Rightarrow> real \<Rightarrow> real \<Rightarrow> sample" where
  "fl_times ext x y = fl ext (x * y)"

fun fl_divide :: "externals \<Rightarrow> sample \<Rightarrow> real \<Rightarrow> sample" where
  "fl_divide ext (Num x) y = fl ext (x / y)"
| "fl_divide ext PInf y = (if y > 0 then PInf else NInf)"
| "fl_divide ext NInf y = (if y > 0 then NInf else PInf)"
| "fl_divide ext NaN y = NaN"

text \<open>\<^verbatim>\<open>int(np.ceil(x))\<close> of a float.\<close>

fun int_ceil :: "sample \<Rightarrow> error + int" where
  "int_ceil (Num x) = Inr \<lceil>x\<rceil>"
| "int_ceil NaN = Inl NaNToInteger"
| "int_ceil _ = Inl OverflowError"

text \<open>\<^verbatim>\<open>int(np.ceil(p / f))\<close> for a float \<open>p\<close> and a cutoff \<open>f\<close> that may be \<^verbatim>\<open>None\<close>.\<close>

fun quotient_ceil :: "externals \<Rightarrow> sample \<Rightarrow> real option \<Rightarrow> error + int" where
  "quotient_ceil ext p None = Inl NoneOperand"
| "quotient_ceil ext p (Some f) =
    (if f = 0 then Inl ZeroDivisionError else int_ceil (fl_divide ext p f))"

definition fir_checks ::
  "externals \<Rightarrow> string \<Rightarrow> real option \<Rightarrow> real option \<Rightarrow> real \<Rightarrow> real option \<Rightarrow> real \<Rightarrow> int \<Rightarrow>
   error + int" where
  "fir_checks ext pass_type f_lo f_hi n_cycles n_seconds fs sig_length =
    (case (case n_seconds of
             Some s \<Rightarrow> int_ceil (fl_times ext fs s)
           | None \<Rightarrow>
               if pass_type = ''lowpass''
               then quotient_ceil ext (fl_times ext fs n_cycles) f_hi
               else quotient_ceil ext (fl_times ext fs n_cycles) f_lo) of
       Inl e \<Rightarrow> Inl e
     | Inr len0 \<Rightarrow>
         (let filt_len = (if len0 mod 2 = 0 then len0 + 1 else len0)
          in if filt_len \<ge> sig_length then Inl FilterTooLong else Inr filt_len))"

definition call_firwin ::
  "externals \<Rightarrow> int \<Rightarrow> real option list \<Rightarrow> bool \<Rightarrow> real \<Rightarrow> error + real list" where
  "call_firwin ext numtaps cutoffs pass_zero nyq =
    (case firwin ext numtaps cutoffs pass_zero nyq of None \<Rightarrow> Inl ExternalError | Some k \<Rightarrow> Inr k)"

definition design_fir_filter ::
  "externals \<Rightarrow> string \<Rightarrow> cutoff \<Rightarrow> real \<Rightarrow> real option \<Rightarrow> real \<Rightarrow> int \<Rightarrow> error + real list" where
  "design_fir_filter ext pass_type fc n_cycles n_seconds fs sig_length =
    (case check_filter_definition pass_type fc of
       Inl e \<Rightarrow> Inl e
     | Inr (f_lo, f_hi) \<Rightarrow>
         (case fir_checks ext pass_type f_lo f_hi n_cycles n_seconds fs sig_length of
            Inl e \<Rightarrow> Inl e
          | Inr filt_len \<Rightarrow>
              (let f_nyq = compute_nyquist fs
               in if pass_type = ''bandpass'' then call_firwin ext filt_len [f_lo, f_hi] False f_nyq
                  else if pass_type = ''bandstop'' then call_firwin ext filt_len [f_lo, f_hi] True f_nyq
                  else if pass_type = ''highpass'' then call_firwin ext filt_len [f_lo] False f_nyq
                  else call_firwin ext filt_len [f_hi] True f_nyq)))"

text \<open>
  Functions that warn or print return the advisories they emitted, in order, beside their
  result.  \<open>then_do\<close> runs the next statement unless the previous one raised.
\<close>

type_synonym 'a outcome = "advisory list \<times> (error + 'a)"

definition lift :: "error + 'a \<Rightarrow> 'a outcome" where
  "lift r = ([], r)"

definition then_do :: "'a outcome \<Rightarrow> ('a \<Rightarrow> 'b outcome) \<Rightarrow> 'b outcome" where
  "then_do m f =
    (case m of
       (w, Inl e) \<Rightarrow> (w, Inl e)
     | (w, Inr x) \<Rightarrow> (case f x of (w', r) \<Rightarrow> (w @ w', r)))"

definition iir_window :: "string \<Rightarrow> real option \<Rightarrow> real option \<Rightarrow> real \<Rightarrow> error + real list" where
  "iir_window pass_type f_lo f_hi f_nyq =
    (if pass_type \<in> set [''bandpass'', ''bandstop''] then
       (case py_truediv f_lo (Some f_nyq) of
          Inl e \<Rightarrow> Inl e
        | Inr a \<Rightarrow>
            (case py_truediv f_hi (Some f_nyq) of Inl e \<Rightarrow> Inl e | Inr b \<Rightarrow> Inr [a, b]))
     else if pass_type = ''highpass'' then
       map_sum id (\<lambda>a. [a]) (py_truediv f_lo (Some f_nyq))
     else map_sum id (\<lambda>a. [a]) (py_truediv f_hi (Some f_nyq)))"

definition design_iir_filter ::
  "externals \<Rightarrow> string \<Rightarrow> cutoff \<Rightarrow> int option \<Rightarrow> real \<Rightarrow> (real list \<times> real list) outcome" where
  "design_iir_filter ext pass_type fc butterworth_order fs =
    (if pass_type \<noteq> ''bandstop'' then [IIRNotRecommended] else [],
     case check_filter_definition pass_type fc of
       Inl e \<Rightarrow> Inl e
     | Inr (f_lo, f_hi) \<Rightarrow>
         (case iir_window pass_type f_lo f_hi (compute_nyquist fs) of
            Inl e \<Rightarrow> Inl e
          | Inr win \<Rightarrow>
              (case butter ext butterworth_order win pass_type of
                 None \<Rightarrow> Inl ExternalError
               | Some ba \<Rightarrow> Inr ba)))"

definition iir_checks :: "real option \<Rightarrow> int option \<Rightarrow> bool \<Rightarrow> unit outcome" where
  "iir_checks n_seconds butterworth_order remove_edge_artifacts =
    (if remove_edge_artifacts then [EdgeArtifactsNotRemoved] else [],
     if n_seconds \<noteq> None then Inl IncompatibleOption
     else if butterworth_order = None then Inl MissingOrder
     else Inr ())"

section \<open>Array operations of the numeric library\<close>

text \<open>
  The operations of numpy the module uses, on lists.  The convolution defined here is
  the one of exact arithmetic: sums and products of finite numbers are those of the
  reals, an infinity or a NaN propagates as in IEEE arithmetic (\<open>inf - inf\<close> and
  \<open>0 * inf\<close> are NaN).  It raises on an empty argument and returns the central
  \<open>max (length a) (length v)\<close> entries of the full convolution, as \<^verbatim>\<open>np.convolve\<close> does in
  mode \<^verbatim>\<open>'same'\<close>.  The model of the module calls the parameter \<open>convolve\<close>; this
  definition is what the examples put in its place.
\<close>

fun s_add :: "sample \<Rightarrow> sample \<Rightarrow> sample" where
  "s_add NaN _ = NaN"
| "s_add _ NaN = NaN"
| "s_add PInf NInf = NaN"
| "s_add NInf PInf = NaN"
| "s_add PInf _ = PInf"
| "s_add _ PInf = PInf"
| "s_add NInf _ = NInf"
| "s_add _ NInf = NInf"
| "s_add (Num x) (Num y) = Num (x + y)"

fun s_sign :: "sample \<Rightarrow> int" where
  "s_sign (Num x) = (if x > 0 then 1 else if x < 0 then - 1 else 0)"
| "s_sign PInf = 1"
| "s_sign NInf = - 1"
| "s_sign NaN = 0"

fun s_mul :: "sample \<Rightarrow> sample \<Rightarrow> sample" where
  "s_mul (Num x) (Num y) = Num (x * y)"
| "s_mul NaN _ = NaN"
| "s_mul _ NaN = NaN"
| "s_mul a b =
    (if s_sign a * s_sign b = 0 then NaN
     else if s_sign a * s_sign b > 0 then PInf else NInf)"

fun add_arrays :: "sample list \<Rightarrow> sample list \<Rightarrow> sample list" where
  "add_arrays [] ys = ys"
| "add_arrays xs [] = xs"
| "add_arrays (x # xs) (y # ys) = s_add x y # add_arrays xs ys"

fun convolve_full :: "sample list \<Rightarrow> sample list \<Rightarrow> sample list" where
  "convolve_full [] v = []"
| "convolve_full (a # as) v = add_arrays (map (s_mul a) v) (Num 0 # convolve_full as v)"

definition convolve_same :: "sample list \<Rightarrow> sample list \<Rightarrow> error + sample list" where
  "convolve_same a v =
    (if a = [] \<or> v = [] then Inl EmptyInput
     else Inr (take (max (length a) (length v))
                 (drop ((min (length a) (length v) - 1) div 2) (convolve_full a v))))"

fun np_min :: "real list \<Rightarrow> error + real" where
  "np_min [] = Inl EmptyReduction"
| "np_min (x # xs) = Inr (fold min xs x)"

fun np_max :: "real list \<Rightarrow> error + real" where
  "np_max [] = Inl EmptyReduction"
| "np_max (x # xs) = Inr (fold max xs x)"

text \<open>\<^verbatim>\<open>np.diff\<close> of a boolean array marks where neighbouring entries differ.\<close>

fun np_diff_bool :: "bool list \<Rightarrow> bool list" where
  "np_diff_bool (a # b # xs) = (a \<noteq> b) # np_diff_bool (b # xs)"
| "np_diff_bool _ = []"

definition np_where :: "bool list \<Rightarrow> nat list" where
  "np_where m = filter (\<lambda>i. m ! i) [0..<length m]"

text \<open>The slices \<^verbatim>\<open>xs[0::2]\<close> and \<^verbatim>\<open>xs[1::2]\<close>, and indexing by an index array.\<close>

fun evens :: "'a list \<Rightarrow> 'a list" where
  "evens (x # y # zs) = x # evens zs"
| "evens xs = xs"

fun odds :: "'a list \<Rightarrow> 'a list" where
  "odds (x # y # zs) = y # odds zs"
| "odds xs = []"

fun take_at :: "'a list \<Rightarrow> nat list \<Rightarrow> error + 'a list" where
  "take_at xs [] = Inr []"
| "take_at xs (i # js) =
    (case getitem xs i of
       Inl e \<Rightarrow> Inl e
     | Inr v \<Rightarrow> map_sum id ((#) v) (take_at xs js))"

section \<open>Filter validation\<close>

text \<open>
  \<^verbatim>\<open>freqz\<close> returns angular frequencies \<open>w\<close> in \<open>[0, \<pi>)\<close>; \<open>freqz_db\<close> gives them as
  the fractions \<open>u = w / \<pi>\<close>, so that \<^verbatim>\<open>w * fs / (2 * np.pi)\<close> is \<open>u * fs / 2\<close>.  A
  response of \<^verbatim>\<open>-inf\<close> decibels is any value below the thresholds.
\<close>

definition compute_frequency_response ::
  "externals \<Rightarrow> real list \<Rightarrow> real list \<Rightarrow> real \<Rightarrow> real list \<times> real list" where
  "compute_frequency_response ext b_vals a_vals fs =
    (case freqz_db ext b_vals a_vals of
       (u_vals, db) \<Rightarrow> (map (\<lambda>u. u * fs / 2) u_vals, db))"

definition compute_transition_band ::
  "real list \<Rightarrow> real list \<Rightarrow> real \<Rightarrow> real \<Rightarrow> error + real" where
  "compute_transition_band f_db db low high =
    (let inds = np_where (np_diff_bool (map (\<lambda>d. d > low \<and> d < high) db))
     in case take_at f_db (evens inds) of
          Inl e \<Rightarrow> Inl e
        | Inr as \<Rightarrow>
            (case take_at f_db (odds inds) of
               Inl e \<Rightarrow> Inl e
             | Inr bs \<Rightarrow> np_max (map (\<lambda>(a, b). b - a) (zip as bs))))"

definition check_filter_properties ::
  "externals \<Rightarrow> real list \<Rightarrow> real list \<Rightarrow> real \<Rightarrow> string \<Rightarrow> cutoff \<Rightarrow> real \<times> real \<Rightarrow> unit outcome" where
  "check_filter_properties ext b_vals a_vals fs pass_type fc transitions =
    then_do (lift (check_filter_definition pass_type fc)) (\<lambda>_.
      case compute_frequency_response ext b_vals a_vals fs of (f_db, db) \<Rightarrow>
        then_do (lift (np_min db)) (\<lambda>lowest.
          if lowest \<ge> fst transitions then ([NoAttenuation], Inr ())
          else
            then_do
              (if pass_type = ''bandpass'' \<and> (hd db \<ge> fst transitions \<or> last db \<ge> fst transitions)
               then [StopbandNotAttenuated] else [], Inr ()) (\<lambda>_.
            then_do (lift (compute_pass_band pass_type fc fs)) (\<lambda>pass_bw.
            then_do (lift (compute_transition_band f_db db (fst transitions) (snd transitions)))
              (\<lambda>transition_bw.
                ((if transition_bw > pass_bw then [TransitionTooWide transition_bw pass_bw] else [])
                   @ [Printed transition_bw pass_bw], Inr ()))))))"

section \<open>Applying a filter\<close>

definition remove_nans :: "sample list \<Rightarrow> sample list \<times> bool list" where
  "remove_nans sig = (filter (\<lambda>x. \<not> isnan x) sig, map isnan sig)"

text \<open>
  \<^verbatim>\<open>_restore_nans\<close> starts from an all-NaN array as long as the mask and assigns the
  values to the positions where the mask is false.  The assignment needs as many values
  as there are such positions, or a single value, which is broadcast.
\<close>

fun put_mask :: "bool list \<Rightarrow> sample list \<Rightarrow> sample list" where
  "put_mask [] vs = []"
| "put_mask (True # m) vs = NaN # put_mask m vs"
| "put_mask (False # m) [] = NaN # put_mask m []"
| "put_mask (False # m) (v # vs) = v # put_mask m vs"

definition restore_nans :: "sample list \<Rightarrow> bool list \<Rightarrow> error + sample list" where
  "restore_nans sig sig_nans =
    (let n = length (filter Not sig_nans)
     in if length sig = n then Inr (put_mask sig_nans sig)
        else if length sig = 1 then Inr (put_mask sig_nans (replicate n (hd sig)))
        else Inl ShapeMismatch)"

text \<open>
  \<^verbatim>\<open>sig[:n_rmv] = nan; sig[-n_rmv:] = nan\<close>.  The slice \<^verbatim>\<open>sig[-0:]\<close> is the whole array.
\<close>

definition drop_edge_artifacts :: "sample list \<Rightarrow> nat \<Rightarrow> sample list" where
  "drop_edge_artifacts sig filt_len =
    (let n_rmv = nat \<lceil>real filt_len / 2\<rceil>;
         sig1 = replicate (min n_rmv (length sig)) NaN @ drop n_rmv sig;
         start = (if n_rmv = 0 then 0 else length sig1 - n_rmv)
     in take start sig1 @ replicate (length sig1 - start) NaN)"

datatype kernel = FIR "real list" | IIR "real list" "real list"

definition call_convolve :: "externals \<Rightarrow> sample list \<Rightarrow> sample list \<Rightarrow> error + sample list" where
  "call_convolve ext a v =
    (case convolve ext a v of None \<Rightarrow> Inl EmptyInput | Some c \<Rightarrow> Inr c)"

definition call_plot :: "externals \<Rightarrow> bool \<Rightarrow> real \<Rightarrow> real list \<Rightarrow> real list option \<Rightarrow> unit outcome" where
  "call_plot ext plot_freq_response fs b_vals a_vals =
    (if plot_freq_response
     then lift (if plot_frequency_response ext fs b_vals a_vals then Inr () else Inl ExternalError)
     else lift (Inr ()))"

text \<open>
  The flag \<^verbatim>\<open>compute_transition_band\<close> of the three filtering functions shares its name
  with the function above; here the flag is called \<open>transition_band_check\<close>.
\<close>

definition filter_signal_fir ::
  "externals \<Rightarrow> sample list \<Rightarrow> real \<Rightarrow> string \<Rightarrow> cutoff \<Rightarrow> real \<Rightarrow> real option \<Rightarrow>
   bool \<Rightarrow> bool \<Rightarrow> bool \<Rightarrow> bool \<Rightarrow> (sample list \<times> kernel option) outcome" where
  "filter_signal_fir ext sig fs pass_type fc n_cycles n_seconds plot_freq_response
     return_kernel transition_band_check remove_edge_artifacts =
    then_do (lift (design_fir_filter ext pass_type fc n_cycles n_seconds fs (int (length sig))))
      (\<lambda>kernel.
    then_do (if transition_band_check
             then check_filter_properties ext kernel [1] fs pass_type fc (- 20, - 3)
             else lift (Inr ())) (\<lambda>_.
    case remove_nans sig of (sig', sig_nans) \<Rightarrow>
    then_do (lift (call_convolve ext (map Num kernel) sig')) (\<lambda>sig_filt.
    then_do (lift (restore_nans
                     (if remove_edge_artifacts
                      then drop_edge_artifacts sig_filt (length kernel) else sig_filt)
                     sig_nans)) (\<lambda>sig_filt.
    then_do (call_plot ext plot_freq_response fs kernel None) (\<lambda>_.
    lift (Inr (sig_filt, if return_kernel then Some (FIR kernel) else None)))))))"

definition filter_signal_iir ::
  "externals \<Rightarrow> sample list \<Rightarrow> real \<Rightarrow> string \<Rightarrow> cutoff \<Rightarrow> int option \<Rightarrow>
   bool \<Rightarrow> bool \<Rightarrow> bool \<Rightarrow> (sample list \<times> kernel option) outcome" where
  "filter_signal_iir ext sig fs pass_type fc butterworth_order plot_freq_response
     return_kernel transition_band_check =
    then_do (design_iir_filter ext pass_type fc butterworth_order fs) (\<lambda>(b_vals, a_vals).
    then_do (if transition_band_check
             then check_filter_properties ext b_vals a_vals fs pass_type fc (- 20, - 3)
             else lift (Inr ())) (\<lambda>_.
    case remove_nans sig of (sig', sig_nans) \<Rightarrow>
    then_do (lift (case filtfilt ext b_vals a_vals sig' of
                     None \<Rightarrow> Inl ExternalError | Some y \<Rightarrow> Inr y)) (\<lambda>sig_filt.
    then_do (lift (restore_nans sig_filt sig_nans)) (\<lambda>sig_filt.
    then_do (call_plot ext plot_freq_response fs b_vals (Some a_vals)) (\<lambda>_.
    lift (Inr (sig_filt, if return_kernel then Some (IIR b_vals a_vals) else None)))))))"

text \<open>
  The entry point.  Its \<^verbatim>\<open>verbose\<close> argument is never read and is left out.
\<close>

definition filter_signal ::
  "externals \<Rightarrow> sample list \<Rightarrow> real \<Rightarrow> string \<Rightarrow> cutoff \<Rightarrow> real \<Rightarrow> real option \<Rightarrow>
   bool \<Rightarrow> int option \<Rightarrow> bool \<Rightarrow> bool \<Rightarrow> bool \<Rightarrow> bool \<Rightarrow> (sample list \<times> kernel option) outcome" where
  "filter_signal ext sig fs pass_type fc n_cycles n_seconds iir butterworth_order
     plot_freq_response return_kernel transition_band_check remove_edge_artifacts =
    (if iir then
       then_do (iir_checks n_seconds butterworth_order remove_edge_artifacts) (\<lambda>_.
         filter_signal_iir ext sig fs pass_type fc butterworth_order plot_freq_response
           return_kernel transition_band_check)
     else filter_signal_fir ext sig fs pass_type fc n_cycles n_seconds plot_freq_response
            return_kernel transition_band_check remove_edge_artifacts)"

section \<open>Notions used to state the properties\<close>

text \<open>
  The filter length in the words of the specification: the ceiling of \<open>fs * n_seconds\<close>
  when a duration is given, otherwise of \<open>fs * n_cycles / f_ref\<close> with \<open>f_ref\<close> the higher
  cutoff for a lowpass filter and the lower cutoff for the other three, then forced to
  the next odd integer.  The product and the quotient are the floats the machine
  computes.  The length is undefined where the reference frequency is missing or zero
  and where the float is not finite.
\<close>

definition next_odd :: "int \<Rightarrow> int" where
  "next_odd n = (if even n then n + 1 else n)"

fun finite_ceiling :: "sample \<Rightarrow> int option" where
  "finite_ceiling (Num x) = Some \<lceil>x\<rceil>"
| "finite_ceiling _ = None"

definition spec_filter_length ::
  "externals \<Rightarrow> string \<Rightarrow> real option \<Rightarrow> real option \<Rightarrow> real \<Rightarrow> real option \<Rightarrow> real \<Rightarrow>
   int option" where
  "spec_filter_length ext pass_type f_lo f_hi n_cycles n_seconds fs =
    map_option next_odd
      (case n_seconds of
         Some s \<Rightarrow> finite_ceiling (fl_times ext fs s)
       | None \<Rightarrow>
           (case (if pass_type = ''lowpass'' then f_hi else f_lo) of
              None \<Rightarrow> None
            | Some f_ref \<Rightarrow>
                if f_ref = 0 then None
                else finite_ceiling (fl_divide ext (fl_times ext fs n_cycles) f_ref)))"

text \<open>
  The positions of a signal that hold NaN; the number of non-NaN samples before a
  position; and the positions that hold the first \<open>n\<close> and the last \<open>n\<close> non-NaN samples.
\<close>

definition nan_positions :: "sample list \<Rightarrow> nat set" where
  "nan_positions xs = {i. i < length xs \<and> isnan (xs ! i)}"

definition valid_before :: "sample list \<Rightarrow> nat \<Rightarrow> nat" where
  "valid_before xs i = length (filter (\<lambda>x. \<not> isnan x) (take i xs))"

definition valid_edge_positions :: "sample list \<Rightarrow> nat \<Rightarrow> nat set" where
  "valid_edge_positions xs n =
    {i. i < length xs \<and> \<not> isnan (xs ! i) \<and>
        (valid_before xs i < n \<or>
         length (filter (\<lambda>x. \<not> isnan x) xs) \<le> valid_before xs i + n)}"

text \<open>
  The positions of a signal whose sample is not NaN but whose convolved sample is: the
  convolved array \<open>c\<close> holds one entry for each non-NaN sample of the signal, in order.
\<close>

definition nan_from_convolution :: "sample list \<Rightarrow> sample list \<Rightarrow> nat set" where
  "nan_from_convolution xs c =
    {i. i < length xs \<and> \<not> isnan (xs ! i) \<and> isnan (c ! valid_before xs i)}"

text \<open>
  What numpy documents of \<^verbatim>\<open>np.convolve(a, v, 'same')\<close>: it raises on an empty argument and
  returns \<open>max (length a) (length v)\<close> entries.  What scipy documents of \<^verbatim>\<open>firwin\<close>: it
  raises for a cutoff that is not strictly between zero and the Nyquist frequency, and
  returns as many coefficients as it is asked for.
\<close>

definition convolve_same_contract :: "externals \<Rightarrow> bool" where
  "convolve_same_contract ext \<longleftrightarrow>
    (\<forall>a v c. convolve ext a v = Some c \<longrightarrow>
       a \<noteq> [] \<and> v \<noteq> [] \<and> length c = max (length a) (length v))"

definition invalid_cutoff :: "real \<Rightarrow> real option \<Rightarrow> bool" where
  "invalid_cutoff nyq c = (case c of None \<Rightarrow> True | Some f \<Rightarrow> f \<le> 0 \<or> nyq \<le> f)"


text \<open>
  A stand-in for the external collaborators, to run the model on concrete inputs: float
  arithmetic is exact, the convolution is the one defined above, the designer checks its
  arguments and returns a moving average of the requested number of taps, the IIR
  designer and zero-phase filter are the identity filter, the frequency response is flat
  and the plot completes.  The examples use numbers at which double arithmetic is exact.
\<close>

definition boxcar_externals :: externals where
  "boxcar_externals =
    \<lparr> fl = Num,
      convolve = (\<lambda>a v. case convolve_same a v of Inl e \<Rightarrow> None | Inr c \<Rightarrow> Some c),
      firwin = (\<lambda>numtaps cutoffs pass_zero nyq.
                  if numtaps \<le> 0 \<or> list_ex (invalid_cutoff nyq) cutoffs then None
                  else Some (replicate (nat numtaps) (1 / real_of_int numtaps))),
      butter = (\<lambda>order win btype. Some ([1], [1])),
      filtfilt = (\<lambda>b_vals a_vals x. Some x),
      freqz_db = (\<lambda>b_vals a_vals. ([0, 1 / 2], [0, 0])),
      plot_frequency_response = (\<lambda>fs b_vals a_vals. True) \<rparr>"

text \<open>
  A second stand-in, for a sharp filter whose response is sampled on a coarse frequency
  grid: the sample at frequency zero lies in the stop band, the others in the pass band,
  and none lies between the two thresholds of the transition band.
\<close>

definition sharp_externals :: externals where
  "sharp_externals =
    boxcar_externals \<lparr> freqz_db := (\<lambda>b_vals a_vals. ([0, 1 / 512, 2 / 512], [- 55, 0, 0])) \<rparr>"

section \<open>Properties of the filter definition checks\<close>

lemma getitem_0: "getitem xs 0 = Inr a \<longleftrightarrow> (\<exists>rest. xs = a # rest)"
  by (cases xs) auto

lemma getitem_1: "getitem xs (Suc 0) = Inr b \<longleftrightarrow> (\<exists>x rest. xs = x # b # rest)"
  by (cases xs; simp add: getitem_0)

lemma cfd_types:
  "check_filter_definition pass_type fc = Inr r \<Longrightarrow>
   pass_type \<in> {''bandpass'', ''bandstop'', ''lowpass'', ''highpass''}"
  unfolding check_filter_definition_def by (simp split: if_splits)

lemma cfd_unknown_type:
  "pass_type \<notin> {''bandpass'', ''bandstop'', ''lowpass'', ''highpass''} \<Longrightarrow>
   check_filter_definition pass_type fc = Inl InvalidFilterDefinition"
  unfolding check_filter_definition_def by simp

lemma cfd_band:
  assumes "pass_type = ''bandpass'' \<or> pass_type = ''bandstop''"
  shows "check_filter_definition pass_type fc = Inr (f_lo, f_hi) \<longleftrightarrow>
     (\<exists>lo hi. fc = Tuple [lo, hi] \<and> lo < hi \<and> f_lo = Some lo \<and> f_hi = Some hi)"
proof (cases fc)
  case (Scalar f)
  with assms show ?thesis by (auto simp: check_filter_definition_def)
next
  case (Tuple xs)
  show ?thesis
  proof (cases xs)
    case Nil
    with Tuple assms show ?thesis by (auto simp: check_filter_definition_def)
  next
    case (Cons a ys)
    show ?thesis
    proof (cases ys)
      case Nil
      with Cons Tuple assms show ?thesis by (auto simp: check_filter_definition_def)
    next
      case (Cons b zs)
      with \<open>xs = a # ys\<close> Tuple assms show ?thesis
        by (cases zs) (auto simp: check_filter_definition_def)
    qed
  qed
qed

lemma cfd_lowpass:
  "check_filter_definition ''lowpass'' fc = Inr (f_lo, f_hi) \<longleftrightarrow>
     f_lo = None \<and>
     (\<exists>hi. f_hi = Some hi \<and> (fc = Scalar hi \<or> (\<exists>x rest. fc = Tuple (x # hi # rest))))"
  unfolding check_filter_definition_def
  by (cases fc) (auto simp: getitem_1 split: sum.splits)

lemma cfd_highpass:
  "check_filter_definition ''highpass'' fc = Inr (f_lo, f_hi) \<longleftrightarrow>
     f_hi = None \<and>
     (\<exists>lo. f_lo = Some lo \<and> (fc = Scalar lo \<or> (\<exists>rest. fc = Tuple (lo # rest))))"
  unfolding check_filter_definition_def
  by (cases fc) (auto simp: getitem_0 split: sum.splits)

text \<open>
  A band filter given a scalar, a pair that is not increasing, or a tuple of three or
  more entries is rejected with the module's own error.
\<close>

lemma cfd_band_rejects:
  assumes "pass_type = ''bandpass'' \<or> pass_type = ''bandstop''"
  shows "check_filter_definition pass_type (Scalar f) = Inl InvalidFilterDefinition"
    and "hi \<le> lo \<Longrightarrow>
         check_filter_definition pass_type (Tuple (lo # hi # rest)) = Inl InvalidFilterDefinition"
    and "check_filter_definition pass_type (Tuple (lo # hi # x # rest)) =
         Inl InvalidFilterDefinition"
  using assms by (auto simp: check_filter_definition_def)

text \<open>
  Claim C6.  Cutoff validation raises InvalidFilterDefinition for an unknown pass type,
  and for a band filter whenever the cutoffs are not exactly two values with the second
  greater than the first.  The code misses the tuples with fewer than two entries: for
  \<^verbatim>\<open>check_filter_definition('bandpass', (5.0,))\<close> the comparison \<^verbatim>\<open>fc[0] >= fc[1]\<close> is
  evaluated before \<^verbatim>\<open>len(fc) != 2\<close> and raises IndexError.
\<close>

theorem band_cutoffs_short_tuple:
  "check_filter_definition ''bandpass'' (Tuple [5]) = Inl IndexError"
  by (simp add: check_filter_definition_def)

text \<open>
  Claim C9.  For every filter definition that passes the check, the pass bandwidth is
  the difference of the two cutoffs for bandpass and bandstop, the distance from the
  cutoff to the Nyquist frequency \<open>fs / 2\<close> for highpass, and the cutoff itself for
  lowpass.
\<close>

theorem pass_band_correct:
  assumes "check_filter_definition pass_type fc = Inr (f_lo, f_hi)"
  shows "(pass_type \<in> {''bandpass'', ''bandstop''} \<longrightarrow>
           (\<exists>lo hi. fc = Tuple [lo, hi] \<and> lo < hi \<and>
                    compute_pass_band pass_type fc fs = Inr (hi - lo))) \<and>
         (pass_type = ''highpass'' \<longrightarrow>
           (\<exists>lo. f_lo = Some lo \<and> (fc = Scalar lo \<or> (\<exists>rest. fc = Tuple (lo # rest))) \<and>
                 compute_pass_band pass_type fc fs = Inr (fs / 2 - lo))) \<and>
         (pass_type = ''lowpass'' \<longrightarrow>
           (\<exists>hi. f_hi = Some hi \<and> (fc = Scalar hi \<or> (\<exists>x rest. fc = Tuple (x # hi # rest))) \<and>
                 compute_pass_band pass_type fc fs = Inr hi))"
proof (intro conjI impI)
  assume b: "pass_type \<in> {''bandpass'', ''bandstop''}"
  then have "pass_type = ''bandpass'' \<or> pass_type = ''bandstop''" by simp
  from cfd_band[OF this] assms obtain lo hi where
    "fc = Tuple [lo, hi]" "lo < hi" "f_lo = Some lo" "f_hi = Some hi" by blast
  with assms b show "\<exists>lo hi. fc = Tuple [lo, hi] \<and> lo < hi \<and>
                    compute_pass_band pass_type fc fs = Inr (hi - lo)"
    by (auto simp: compute_pass_band_def)
next
  assume h: "pass_type = ''highpass''"
  with assms cfd_highpass[of fc f_lo f_hi] obtain lo where
    "f_lo = Some lo" "fc = Scalar lo \<or> (\<exists>rest. fc = Tuple (lo # rest))" by blast
  with assms h show "\<exists>lo. f_lo = Some lo \<and> (fc = Scalar lo \<or> (\<exists>rest. fc = Tuple (lo # rest))) \<and>
                 compute_pass_band pass_type fc fs = Inr (fs / 2 - lo)"
    by (auto simp: compute_pass_band_def compute_nyquist_def)
next
  assume l: "pass_type = ''lowpass''"
  with assms cfd_lowpass[of fc f_lo f_hi] obtain hi where
    "f_hi = Some hi" "fc = Scalar hi \<or> (\<exists>x rest. fc = Tuple (x # hi # rest))" by blast
  with assms l show "\<exists>hi. f_hi = Some hi \<and> (fc = Scalar hi \<or> (\<exists>x rest. fc = Tuple (x # hi # rest))) \<and>
                 compute_pass_band pass_type fc fs = Inr hi"
    by (auto simp: compute_pass_band_def)
qed

theorem pass_band_correct_witness:
  "check_filter_definition ''bandpass'' (Tuple [8, 12]) = Inr (Some 8, Some 12) \<and>
   compute_pass_band ''bandpass'' (Tuple [8, 12]) 1000 = Inr 4 \<and>
   compute_pass_band ''highpass'' (Scalar 2) 1000 = Inr 498 \<and>
   compute_pass_band ''lowpass'' (Scalar 30) 1000 = Inr 30"
proof -
  have h: "check_filter_definition ''bandpass'' (Tuple [8, 12]) = Inr (Some 8, Some 12)"
    by (simp add: check_filter_definition_def)
  have h2: "check_filter_definition ''highpass'' (Scalar 2) = Inr (Some 2, None)"
    by (simp add: check_filter_definition_def)
  have h3: "check_filter_definition ''lowpass'' (Scalar 30) = Inr (None, Some 30)"
    by (simp add: check_filter_definition_def)
  from pass_band_correct[OF h, of 1000] pass_band_correct[OF h2, of 1000]
    pass_band_correct[OF h3, of 1000] h
  show ?thesis by auto
qed

section \<open>Properties of the FIR design\<close>

lemma getitem_Inl: "getitem xs i = Inl e \<Longrightarrow> e = IndexError"
  by (induction xs i rule: getitem.induct) auto

lemma cfd_errors:
  "check_filter_definition pass_type fc = Inl e \<Longrightarrow> e = InvalidFilterDefinition \<or> e = IndexError"
  unfolding check_filter_definition_def
  by (auto split: if_splits cutoff.splits sum.splits dest: getitem_Inl)

lemma int_ceil_finite:
  "int_ceil p = (case finite_ceiling p of Some n \<Rightarrow> Inr n
                 | None \<Rightarrow> if isnan p then Inl NaNToInteger else Inl OverflowError)"
  by (cases p) simp_all

lemma fir_checks_Some:
  assumes "spec_filter_length ext pass_type f_lo f_hi n_cycles n_seconds fs = Some n"
  shows "fir_checks ext pass_type f_lo f_hi n_cycles n_seconds fs sig_length =
           (if n \<ge> sig_length then Inl FilterTooLong else Inr n)"
  using assms unfolding fir_checks_def spec_filter_length_def next_odd_def
  by (auto simp: int_ceil_finite even_iff_mod_2_eq_zero Let_def
      split: option.splits if_splits)

lemma fir_checks_None:
  assumes "spec_filter_length ext pass_type f_lo f_hi n_cycles n_seconds fs = None"
  shows "\<exists>e. fir_checks ext pass_type f_lo f_hi n_cycles n_seconds fs sig_length = Inl e \<and>
             e \<noteq> FilterTooLong \<and> e \<noteq> InvalidFilterDefinition"
  using assms unfolding fir_checks_def spec_filter_length_def
  by (auto simp: int_ceil_finite split: option.splits if_splits)

lemma fir_checks_Inr:
  assumes "fir_checks ext pass_type f_lo f_hi n_cycles n_seconds fs sig_length = Inr n"
  shows "spec_filter_length ext pass_type f_lo f_hi n_cycles n_seconds fs = Some n
         \<and> n < sig_length"
proof (cases "spec_filter_length ext pass_type f_lo f_hi n_cycles n_seconds fs")
  case None
  from fir_checks_None[OF None, of sig_length] assms show ?thesis by auto
next
  case (Some m)
  from fir_checks_Some[OF Some, of sig_length] assms Some show ?thesis
    by (auto split: if_splits)
qed

lemma next_odd_odd: "odd (next_odd n)"
  by (simp add: next_odd_def)

lemma spec_filter_length_odd:
  "spec_filter_length ext pass_type f_lo f_hi n_cycles n_seconds fs = Some n \<Longrightarrow> odd n"
  unfolding spec_filter_length_def using next_odd_odd by auto

lemma call_firwin_Inr:
  "call_firwin ext n c pz nyq = Inr k \<longleftrightarrow> firwin ext n c pz nyq = Some k"
  by (simp add: call_firwin_def split: option.splits)

lemma call_firwin_not_too_long: "call_firwin ext n c pz nyq \<noteq> Inl FilterTooLong"
  by (simp add: call_firwin_def split: option.splits)

lemma design_fir_filter_unfold:
  assumes "check_filter_definition pass_type fc = Inr (f_lo, f_hi)"
      and "fir_checks ext pass_type f_lo f_hi n_cycles n_seconds fs sig_length = Inr n"
  shows "\<exists>c pz. design_fir_filter ext pass_type fc n_cycles n_seconds fs sig_length =
           call_firwin ext n c pz (compute_nyquist fs)"
  using assms unfolding design_fir_filter_def by (simp add: Let_def) blast

text \<open>
  Claim C3.  For every FIR request that yields a kernel, the kernel length is the
  ceiling of \<open>fs * n_seconds\<close> when a duration is given (whatever \<open>n_cycles\<close> is), and
  otherwise the ceiling of \<open>fs * n_cycles / f_ref\<close>, with \<open>f_ref\<close> the lower cutoff for
  bandpass, bandstop and highpass and the higher cutoff for lowpass, forced to the next
  odd integer; so the kernel has odd length.  The product and the quotient are the
  floats the machine computes, whatever its rounding.  The external designer is assumed
  to return as many coefficients as it is asked for.
\<close>

theorem fir_kernel_length:
  assumes "\<forall>n c pz nyq k. firwin ext n c pz nyq = Some k \<longrightarrow> int (length k) = n"
      and "check_filter_definition pass_type fc = Inr (f_lo, f_hi)"
      and "design_fir_filter ext pass_type fc n_cycles n_seconds fs sig_length = Inr kern"
  shows "spec_filter_length ext pass_type f_lo f_hi n_cycles n_seconds fs =
           Some (int (length kern))
         \<and> odd (length kern)"
proof -
  from assms(2,3) obtain n where
    n: "fir_checks ext pass_type f_lo f_hi n_cycles n_seconds fs sig_length = Inr n"
    unfolding design_fir_filter_def by (auto split: sum.splits)
  from design_fir_filter_unfold[OF assms(2) n] assms(3) obtain c pz where
    "call_firwin ext n c pz (compute_nyquist fs) = Inr kern" by auto
  then have "firwin ext n c pz (compute_nyquist fs) = Some kern"
    by (simp add: call_firwin_Inr)
  with assms(1) have len: "int (length kern) = n" by blast
  from fir_checks_Inr[OF n] have
    s: "spec_filter_length ext pass_type f_lo f_hi n_cycles n_seconds fs = Some n" by simp
  from spec_filter_length_odd[OF s] have "odd n" .
  with len have "odd (length kern)" using even_of_nat[of "length kern", where ?'a = int] by simp
  with s len show ?thesis by simp
qed


lemma boxcar_firwin_length:
  "\<forall>n c pz nyq k. firwin boxcar_externals n c pz nyq = Some k \<longrightarrow> int (length k) = n"
  by (auto simp: boxcar_externals_def split: if_splits)

lemma boxcar_fl: "fl boxcar_externals x = Num x"
  by (simp add: boxcar_externals_def)

lemma boxcar_firwin:
  "firwin boxcar_externals numtaps cutoffs pass_zero nyq =
     (if numtaps \<le> 0 \<or> list_ex (invalid_cutoff nyq) cutoffs then None
      else Some (replicate (nat numtaps) (1 / real_of_int numtaps)))"
  by (simp add: boxcar_externals_def)

theorem fir_kernel_length_witness:
  "check_filter_definition ''bandpass'' (Tuple [8, 12]) = Inr (Some 8, Some 12) \<and>
   design_fir_filter boxcar_externals ''bandpass'' (Tuple [8, 12]) 3 None 1000 5000 =
     Inr (replicate 375 (1 / 375)) \<and>
   spec_filter_length boxcar_externals ''bandpass'' (Some 8) (Some 12) 3 None 1000 = Some 375 \<and>
   odd (length (replicate 375 (1 / 375 :: real)))"
proof -
  have b: "check_filter_definition ''bandpass'' (Tuple [8, 12]) = Inr (Some 8, Some 12)"
    by (simp add: check_filter_definition_def)
  have c: "design_fir_filter boxcar_externals ''bandpass'' (Tuple [8, 12]) 3 None 1000 5000 =
     Inr (replicate 375 (1 / 375))"
    by (simp add: design_fir_filter_def b fir_checks_def fl_times_def boxcar_fl call_firwin_def
        boxcar_firwin invalid_cutoff_def compute_nyquist_def)
  from fir_kernel_length[OF boxcar_firwin_length b c] b c show ?thesis by simp
qed

text \<open>
  Claim C4.  The FIR design raises FilterTooLong exactly when the derived, odd-forced
  filter length is at least the signal length.  When it does, filtering returns the error
  alone, with no kernel and no signal; otherwise the design goes on to the kernel
  designer with that length.
\<close>

theorem filter_too_long_iff:
  "(design_fir_filter ext pass_type fc n_cycles n_seconds fs sig_length = Inl FilterTooLong \<longleftrightarrow>
      (\<exists>f_lo f_hi n. check_filter_definition pass_type fc = Inr (f_lo, f_hi) \<and>
         spec_filter_length ext pass_type f_lo f_hi n_cycles n_seconds fs = Some n \<and>
         n \<ge> sig_length)) \<and>
   (design_fir_filter ext pass_type fc n_cycles n_seconds fs (int (length sig)) = Inl FilterTooLong
      \<longrightarrow> filter_signal ext sig fs pass_type fc n_cycles n_seconds False order plot_freq_response
            return_kernel transition_band_check remove_edge_artifacts = ([], Inl FilterTooLong)) \<and>
   (\<forall>f_lo f_hi n. check_filter_definition pass_type fc = Inr (f_lo, f_hi) \<and>
         spec_filter_length ext pass_type f_lo f_hi n_cycles n_seconds fs = Some n \<and>
         n < sig_length \<longrightarrow>
      (\<exists>c pz. design_fir_filter ext pass_type fc n_cycles n_seconds fs sig_length =
           call_firwin ext n c pz (compute_nyquist fs)))"
proof (intro conjI allI impI)
  show "design_fir_filter ext pass_type fc n_cycles n_seconds fs sig_length = Inl FilterTooLong \<longleftrightarrow>
      (\<exists>f_lo f_hi n. check_filter_definition pass_type fc = Inr (f_lo, f_hi) \<and>
         spec_filter_length ext pass_type f_lo f_hi n_cycles n_seconds fs = Some n \<and>
         n \<ge> sig_length)"
  proof (cases "check_filter_definition pass_type fc")
    case (Inl e)
    then have "e \<noteq> FilterTooLong"
      using cfd_errors by blast
    with Inl show ?thesis by (simp add: design_fir_filter_def)
  next
    case (Inr p)
    obtain f_lo f_hi where p: "p = (f_lo, f_hi)" by (cases p)
    show ?thesis
    proof (cases "spec_filter_length ext pass_type f_lo f_hi n_cycles n_seconds fs")
      case None
      from fir_checks_None[OF None, of sig_length] obtain e where
        "fir_checks ext pass_type f_lo f_hi n_cycles n_seconds fs sig_length = Inl e"
        "e \<noteq> FilterTooLong" by blast
      with Inr p None show ?thesis by (simp add: design_fir_filter_def)
    next
      case (Some n)
      show ?thesis
        using Inr p Some fir_checks_Some[OF Some, of sig_length] call_firwin_not_too_long[of ext]
        by (auto simp: design_fir_filter_def Let_def)
    qed
  qed
next
  assume "design_fir_filter ext pass_type fc n_cycles n_seconds fs (int (length sig)) = Inl FilterTooLong"
  then show "filter_signal ext sig fs pass_type fc n_cycles n_seconds False order plot_freq_response
            return_kernel transition_band_check remove_edge_artifacts = ([], Inl FilterTooLong)"
    by (simp add: filter_signal_def filter_signal_fir_def then_do_def lift_def)
next
  fix f_lo f_hi n
  assume a: "check_filter_definition pass_type fc = Inr (f_lo, f_hi) \<and>
         spec_filter_length ext pass_type f_lo f_hi n_cycles n_seconds fs = Some n \<and> n < sig_length"
  then have "fir_checks ext pass_type f_lo f_hi n_cycles n_seconds fs sig_length = Inr n"
    by (simp add: fir_checks_Some)
  with a show "\<exists>c pz. design_fir_filter ext pass_type fc n_cycles n_seconds fs sig_length =
           call_firwin ext n c pz (compute_nyquist fs)"
    using design_fir_filter_unfold by blast
qed

lemma boxcar_band_length:
  "spec_filter_length boxcar_externals ''bandpass'' (Some 8) (Some 12) 3 None 1000 = Some 375"
  by (simp add: spec_filter_length_def next_odd_def fl_times_def boxcar_fl)

theorem filter_too_long_iff_witness:
  "design_fir_filter boxcar_externals ''bandpass'' (Tuple [8, 12]) 3 None 1000 375 = Inl FilterTooLong \<and>
   filter_signal boxcar_externals (replicate 5 (Num 1)) 1000 ''bandpass'' (Tuple [8, 12]) 3 None
     False None False True True True = ([], Inl FilterTooLong) \<and>
   design_fir_filter boxcar_externals ''bandpass'' (Tuple [8, 12]) 3 None 1000 376 =
     Inr (replicate 375 (1 / 375))"
proof -
  have b: "check_filter_definition ''bandpass'' (Tuple [8, 12]) = Inr (Some 8, Some 12)"
    by (simp add: check_filter_definition_def)
  note s = boxcar_band_length
  have l: "int (length (replicate 5 (Num 1))) = 5" by simp
  note t = filter_too_long_iff[of boxcar_externals "''bandpass''" "Tuple [8, 12]" 3 None 1000]
  have 1: "design_fir_filter boxcar_externals ''bandpass'' (Tuple [8, 12]) 3 None 1000 375 = Inl FilterTooLong"
    using t[of 375] b s by blast
  have "design_fir_filter boxcar_externals ''bandpass'' (Tuple [8, 12]) 3 None 1000 5 = Inl FilterTooLong"
    using t[of 5] b s by auto
  then have 2: "filter_signal boxcar_externals (replicate 5 (Num 1)) 1000 ''bandpass'' (Tuple [8, 12]) 3 None
     False None False True True True = ([], Inl FilterTooLong)"
    using t[of 375 "replicate 5 (Num 1)" None False True True True] l by simp
  have 3: "design_fir_filter boxcar_externals ''bandpass'' (Tuple [8, 12]) 3 None 1000 376 =
     Inr (replicate 375 (1 / 375))"
    by (simp add: design_fir_filter_def b fir_checks_def fl_times_def boxcar_fl call_firwin_def
        boxcar_firwin invalid_cutoff_def compute_nyquist_def)
  from 1 2 3 show ?thesis by simp
qed

text \<open>
  The rounding of the machine decides the length.  With \<open>fs = 100\<close> and the double nearest
  to \<open>0.05\<close> as duration, the machine product is \<open>5\<close> and the length is \<open>5\<close>, though the
  exact product lies above \<open>5\<close>; with the double nearest to \<open>0.07\<close> the machine product
  is \<open>7 + 1 / 2 ^ 50\<close> and the length is \<open>9\<close>.
\<close>

lemma rounding_decides_length:
  assumes "fl ext (100 * (3602879701896397 / 2 ^ 56)) = Num 5"
      and "fl ext (100 * (1261007895663739 / 2 ^ 54)) = Num (7 + 1 / 2 ^ 50)"
  shows "fir_checks ext pass_type f_lo f_hi n_cycles (Some (3602879701896397 / 2 ^ 56)) 100 6 =
           Inr 5"
    and "\<lceil>100 * (3602879701896397 / 2 ^ 56 :: real)\<rceil> = 6"
    and "fir_checks ext pass_type f_lo f_hi n_cycles (Some (1261007895663739 / 2 ^ 54)) 100 10 =
           Inr 9"
proof -
  show "fir_checks ext pass_type f_lo f_hi n_cycles (Some (3602879701896397 / 2 ^ 56)) 100 6 =
           Inr 5"
    using assms(1) by (simp add: fir_checks_def fl_times_def)
  show "\<lceil>100 * (3602879701896397 / 2 ^ 56 :: real)\<rceil> = 6"
    by (simp add: ceiling_eq_iff)
  have "\<lceil>7 + 1 / 2 ^ 50 :: real\<rceil> = 8"
    by (simp add: ceiling_eq_iff)
  then show "fir_checks ext pass_type f_lo f_hi n_cycles (Some (1261007895663739 / 2 ^ 54)) 100 10 =
           Inr 9"
    using assms(2) by (simp add: fir_checks_def fl_times_def)
qed






section \<open>Properties of the IIR option checks\<close>

text \<open>
  Claim C7.  For every IIR request through \<open>filter_signal\<close>, a duration raises
  IncompatibleOption, a missing order raises MissingOrder, edge removal is only an
  advisory, and a pass type other than bandstop draws the notch advisory.  With a
  duration and no order the duration is checked first: the error is IncompatibleOption,
  not MissingOrder, and the design, with its notch advisory, is never reached.
\<close>

theorem iir_without_order_counterexample:
  "filter_signal boxcar_externals [Num 1, Num 2, Num 3] 1000 ''lowpass'' (Scalar 100) 3 (Some 1)
     True None False False True True = ([EdgeArtifactsNotRemoved], Inl IncompatibleOption)"
  by (simp add: filter_signal_def iir_checks_def then_do_def)

text \<open>
  Claim C7, amended.  For every IIR request through \<open>filter_signal\<close>: a duration raises
  IncompatibleOption; a missing order raises MissingOrder when no duration is given; when
  both checks pass, the outcome is that of \<open>filter_signal_iir\<close> with the edge-removal
  advisory in front if edge removal was requested, and a pass type other than bandstop
  draws the notch advisory; a request for edge removal always draws its advisory.
\<close>

theorem iir_option_checks:
  "(n_seconds \<noteq> None \<longrightarrow>
      snd (filter_signal ext sig fs pass_type fc n_cycles n_seconds True order plot_freq_response
             return_kernel transition_band_check remove_edge_artifacts) = Inl IncompatibleOption) \<and>
   (n_seconds = None \<and> order = None \<longrightarrow>
      snd (filter_signal ext sig fs pass_type fc n_cycles n_seconds True order plot_freq_response
             return_kernel transition_band_check remove_edge_artifacts) = Inl MissingOrder) \<and>
   (n_seconds = None \<and> order \<noteq> None \<longrightarrow>
      filter_signal ext sig fs pass_type fc n_cycles n_seconds True order plot_freq_response
        return_kernel transition_band_check remove_edge_artifacts =
      ((if remove_edge_artifacts then [EdgeArtifactsNotRemoved] else []) @
         fst (filter_signal_iir ext sig fs pass_type fc order plot_freq_response
                return_kernel transition_band_check),
       snd (filter_signal_iir ext sig fs pass_type fc order plot_freq_response
              return_kernel transition_band_check)) \<and>
      (pass_type \<noteq> ''bandstop'' \<longrightarrow>
         IIRNotRecommended \<in> set (fst (filter_signal ext sig fs pass_type fc n_cycles n_seconds
           True order plot_freq_response return_kernel transition_band_check
           remove_edge_artifacts)))) \<and>
   (remove_edge_artifacts \<longrightarrow>
      EdgeArtifactsNotRemoved \<in> set (fst (filter_signal ext sig fs pass_type fc n_cycles n_seconds
        True order plot_freq_response return_kernel transition_band_check
        remove_edge_artifacts)))"
  by (cases n_seconds; cases order; cases remove_edge_artifacts)
     (auto simp: filter_signal_def iir_checks_def then_do_def filter_signal_iir_def
        design_iir_filter_def split: prod.splits sum.splits)


theorem iir_option_checks_witness:
  "snd (filter_signal boxcar_externals [Num 1, Num 2, Num 3] 1000 ''lowpass'' (Scalar 100) 3
          (Some 1) True (Some 2) False False True True) = Inl IncompatibleOption \<and>
   snd (filter_signal boxcar_externals [Num 1, Num 2, Num 3] 1000 ''lowpass'' (Scalar 100) 3
          None True None False False True True) = Inl MissingOrder \<and>
   filter_signal boxcar_externals [Num 1, Num 2, Num 3] 1000 ''lowpass'' (Scalar 100) 3
          None True (Some 2) False False True True =
     ([EdgeArtifactsNotRemoved, IIRNotRecommended, NoAttenuation],
      Inr ([Num 1, Num 2, Num 3], None)) \<and>
   IIRNotRecommended \<in> set (fst (filter_signal boxcar_externals [Num 1, Num 2, Num 3] 1000
          ''lowpass'' (Scalar 100) 3 None True (Some 2) False False True True))"
proof -
  have i: "filter_signal_iir boxcar_externals [Num 1, Num 2, Num 3] 1000 ''lowpass'' (Scalar 100)
             (Some 2) False False True =
           ([IIRNotRecommended, NoAttenuation], Inr ([Num 1, Num 2, Num 3], None))"
    by (simp add: filter_signal_iir_def design_iir_filter_def check_filter_definition_def
        iir_window_def compute_nyquist_def boxcar_externals_def then_do_def lift_def
        check_filter_properties_def compute_frequency_response_def remove_nans_def
        restore_nans_def call_plot_def)
  note t = iir_option_checks[of _ boxcar_externals "[Num 1, Num 2, Num 3]" 1000 "''lowpass''"
      "Scalar 100" 3 _ False False True True]
  from t[of "Some 1" "Some 2"] t[of None None] t[of None "Some 2"] i
  show ?thesis by simp
qed

section \<open>Properties of NaN removal and restoration\<close>

lemma length_put_mask: "length (put_mask m vs) = length m"
  by (induction m vs rule: put_mask.induct) auto

lemma count_valid: "length (filter Not (map isnan s)) = length (filter (\<lambda>x. \<not> isnan x) s)"
  by (induction s) auto

lemma put_mask_roundtrip: "put_mask (map isnan s) (filter (\<lambda>x. \<not> isnan x) s) = s"
proof (induction s)
  case Nil
  show ?case by simp
next
  case (Cons x s)
  then show ?case by (cases x) auto
qed

lemma restore_nans_length: "restore_nans x m = Inr y \<Longrightarrow> length y = length m"
  by (auto simp: restore_nans_def Let_def length_put_mask split: if_splits)

text \<open>
  Claim C10.  Restoring the NaNs after stripping them gives back the signal: the result of
  \<open>restore_nans\<close> on the two results of \<open>remove_nans\<close> equals the signal at every
  position, so it holds the signal's values where the signal has values and NaN exactly
  where the signal has NaN.
\<close>

theorem remove_restore_roundtrip:
  "restore_nans (fst (remove_nans s)) (snd (remove_nans s)) = Inr s"
  by (simp add: remove_nans_def restore_nans_def comp_def put_mask_roundtrip)

section \<open>Properties of the filtering functions\<close>

lemma then_do_Inr:
  "snd (then_do m f) = Inr y \<Longrightarrow> \<exists>x. snd m = Inr x \<and> snd (f x) = Inr y"
  by (auto simp: then_do_def split: prod.splits sum.splits)

lemma snd_lift: "snd (lift r) = r"
  by (simp add: lift_def)

lemma fir_result:
  assumes "snd (filter_signal_fir ext sig fs pass_type fc n_cycles n_seconds plot_freq_response
             return_kernel transition_band_check remove_edge_artifacts) = Inr (y, k)"
  shows "\<exists>kern c. design_fir_filter ext pass_type fc n_cycles n_seconds fs (int (length sig)) = Inr kern \<and>
           call_convolve ext (map Num kern) (fst (remove_nans sig)) = Inr c \<and>
           restore_nans (if remove_edge_artifacts then drop_edge_artifacts c (length kern) else c)
             (snd (remove_nans sig)) = Inr y \<and>
           k = (if return_kernel then Some (FIR kern) else None)"
proof -
  from then_do_Inr[OF assms[unfolded filter_signal_fir_def]] obtain kern where
    d: "design_fir_filter ext pass_type fc n_cycles n_seconds fs (int (length sig)) = Inr kern"
    and r1: "snd (then_do (if transition_band_check
             then check_filter_properties ext kern [1] fs pass_type fc (- 20, - 3)
             else lift (Inr ())) (\<lambda>_.
      case remove_nans sig of (sig', sig_nans) \<Rightarrow>
      then_do (lift (call_convolve ext (map Num kern) sig')) (\<lambda>sig_filt.
      then_do (lift (restore_nans
                     (if remove_edge_artifacts
                      then drop_edge_artifacts sig_filt (length kern) else sig_filt)
                     sig_nans)) (\<lambda>sig_filt.
      then_do (call_plot ext plot_freq_response fs kern None) (\<lambda>_.
      lift (Inr (sig_filt, if return_kernel then Some (FIR kern) else None))))))) = Inr (y, k)"
    by (auto simp: snd_lift)
  from then_do_Inr[OF r1] have r2: "snd (then_do (lift (call_convolve ext (map Num kern) (fst (remove_nans sig)))) (\<lambda>sig_filt.
      then_do (lift (restore_nans
                     (if remove_edge_artifacts
                      then drop_edge_artifacts sig_filt (length kern) else sig_filt)
                     (snd (remove_nans sig)))) (\<lambda>sig_filt.
      then_do (call_plot ext plot_freq_response fs kern None) (\<lambda>_.
      lift (Inr (sig_filt, if return_kernel then Some (FIR kern) else None)))))) = Inr (y, k)"
    by (auto simp: split_def)
  from then_do_Inr[OF r2] obtain c where
    c: "call_convolve ext (map Num kern) (fst (remove_nans sig)) = Inr c"
    and r3: "snd (then_do (lift (restore_nans
                     (if remove_edge_artifacts
                      then drop_edge_artifacts c (length kern) else c)
                     (snd (remove_nans sig)))) (\<lambda>sig_filt.
      then_do (call_plot ext plot_freq_response fs kern None) (\<lambda>_.
      lift (Inr (sig_filt, if return_kernel then Some (FIR kern) else None))))) = Inr (y, k)"
    by (auto simp: snd_lift)
  from then_do_Inr[OF r3] obtain y' where
    y': "restore_nans (if remove_edge_artifacts then drop_edge_artifacts c (length kern) else c)
           (snd (remove_nans sig)) = Inr y'"
    and r4: "snd (then_do (call_plot ext plot_freq_response fs kern None) (\<lambda>_.
      lift (Inr (y', if return_kernel then Some (FIR kern) else None)))) = Inr (y, k)"
    by (auto simp: snd_lift)
  from then_do_Inr[OF r4] have "y' = y" "k = (if return_kernel then Some (FIR kern) else None)"
    by (auto simp: snd_lift)
  with d c y' show ?thesis by blast
qed

lemma fir_result_plain:
  "snd (filter_signal_fir ext sig fs pass_type fc n_cycles n_seconds False
             return_kernel False remove_edge_artifacts) =
    (case design_fir_filter ext pass_type fc n_cycles n_seconds fs (int (length sig)) of
       Inl e \<Rightarrow> Inl e
     | Inr kern \<Rightarrow>
        (case call_convolve ext (map Num kern) (fst (remove_nans sig)) of
           Inl e \<Rightarrow> Inl e
         | Inr c \<Rightarrow>
            (case restore_nans (if remove_edge_artifacts then drop_edge_artifacts c (length kern) else c)
                    (snd (remove_nans sig)) of
               Inl e \<Rightarrow> Inl e
             | Inr y \<Rightarrow> Inr (y, if return_kernel then Some (FIR kern) else None))))"
  by (simp add: filter_signal_fir_def then_do_def lift_def call_plot_def split_def
      split: sum.splits)


lemma snd_then_do:
  "snd (then_do m f) = (case snd m of Inl e \<Rightarrow> Inl e | Inr x \<Rightarrow> snd (f x))"
  by (auto simp: then_do_def split: prod.splits sum.splits)

lemma snd_call_plot_off: "snd (call_plot ext False fs b a) = Inr ()"
  by (simp add: call_plot_def lift_def)

lemma iir_result:
  assumes "snd (filter_signal_iir ext sig fs pass_type fc order plot_freq_response
             return_kernel transition_band_check) = Inr (y, k)"
  shows "\<exists>b a f. snd (design_iir_filter ext pass_type fc order fs) = Inr (b, a) \<and>
           filtfilt ext b a (fst (remove_nans sig)) = Some f \<and>
           restore_nans f (snd (remove_nans sig)) = Inr y \<and>
           k = (if return_kernel then Some (IIR b a) else None)"
  using assms unfolding filter_signal_iir_def
  by (cases return_kernel)
     (auto simp: snd_then_do snd_lift split_def split: sum.splits option.splits)

lemma iir_result_plain:
  "snd (filter_signal_iir ext sig fs pass_type fc order False return_kernel False) =
    (case snd (design_iir_filter ext pass_type fc order fs) of
       Inl e \<Rightarrow> Inl e
     | Inr ba \<Rightarrow>
        (case filtfilt ext (fst ba) (snd ba) (fst (remove_nans sig)) of
           None \<Rightarrow> Inl ExternalError
         | Some f \<Rightarrow>
            (case restore_nans f (snd (remove_nans sig)) of
               Inl e \<Rightarrow> Inl e
             | Inr y \<Rightarrow> Inr (y, if return_kernel then Some (IIR (fst ba) (snd ba)) else None))))"
  unfolding filter_signal_iir_def
  by (auto simp: snd_then_do snd_lift snd_call_plot_off split_def split: sum.splits option.splits)

text \<open>
  A run of the model: a moving average of three taps over six samples, the first of
  which is NaN.
\<close>

lemma boxcar_design:
  "design_fir_filter boxcar_externals ''lowpass'' (Scalar 100) 3 (Some (3 / 1000)) 1000 6 =
     Inr [1 / 3, 1 / 3, 1 / 3]"
  by (simp add: design_fir_filter_def check_filter_definition_def fir_checks_def fl_times_def
      boxcar_fl call_firwin_def boxcar_firwin invalid_cutoff_def compute_nyquist_def
      numeral_eq_Suc)

lemma boxcar_check:
  "check_filter_properties boxcar_externals b a 1000 ''lowpass'' (Scalar 100) (- 20, - 3) =
     ([NoAttenuation], Inr ())"
  by (simp add: check_filter_properties_def check_filter_definition_def then_do_def lift_def
      compute_frequency_response_def boxcar_externals_def)

lemma boxcar_convolve:
  "call_convolve boxcar_externals [Num (1 / 3), Num (1 / 3), Num (1 / 3)]
     [Num 1, Num 2, Num 3, Num 4, Num 5] =
     Inr [Num 1, Num 2, Num 3, Num 4, Num 3]"
  by (simp add: call_convolve_def boxcar_externals_def convolve_same_def)

lemma boxcar_edges:
  "drop_edge_artifacts [Num 1, Num 2, Num 3, Num 4, Num 3] (Suc (Suc (Suc 0))) =
     [NaN, NaN, Num 3, NaN, NaN]"
  by (simp add: drop_edge_artifacts_def Let_def numeral_eq_Suc)

lemma boxcar_restore:
  "restore_nans [NaN, NaN, Num 3, NaN, NaN] [True, False, False, False, False, False] =
     Inr [NaN, NaN, NaN, Num 3, NaN, NaN]"
  "restore_nans [Num 1, Num 2, Num 3, Num 4, Num 3] [True, False, False, False, False, False] =
     Inr [NaN, Num 1, Num 2, Num 3, Num 4, Num 3]"
  by (simp_all add: restore_nans_def)

lemma boxcar_plot: "plot_frequency_response boxcar_externals fs b a"
  by (simp add: boxcar_externals_def)

lemma boxcar_example:
  "filter_signal boxcar_externals [NaN, Num 1, Num 2, Num 3, Num 4, Num 5] 1000 ''lowpass''
     (Scalar 100) 3 (Some (3 / 1000)) False None True False True True =
   ([NoAttenuation], Inr ([NaN, NaN, NaN, Num 3, NaN, NaN], None))"
  by (simp add: filter_signal_def filter_signal_fir_def boxcar_design boxcar_check
      boxcar_convolve boxcar_edges boxcar_restore then_do_def lift_def remove_nans_def call_plot_def
      boxcar_plot)

lemma boxcar_example_no_edges:
  "filter_signal boxcar_externals [NaN, Num 1, Num 2, Num 3, Num 4, Num 5] 1000 ''lowpass''
     (Scalar 100) 3 (Some (3 / 1000)) False None True True False False =
   ([], Inr ([NaN, Num 1, Num 2, Num 3, Num 4, Num 3], Some (FIR [1 / 3, 1 / 3, 1 / 3])))"
  by (simp add: filter_signal_def filter_signal_fir_def boxcar_design boxcar_check
      boxcar_convolve boxcar_edges boxcar_restore then_do_def lift_def remove_nans_def call_plot_def
      boxcar_plot)

lemma length_snd_remove_nans: "length (snd (remove_nans sig)) = length sig"
  by (simp add: remove_nans_def)

text \<open>
  Claim C2.  Whenever \<open>filter_signal\<close> returns, with an FIR or an IIR filter and
  whatever the options, the filtered signal is as long as the input signal.
\<close>

theorem output_length_preserved:
  assumes "snd (filter_signal ext sig fs pass_type fc n_cycles n_seconds iir order
             plot_freq_response return_kernel transition_band_check remove_edge_artifacts) =
           Inr (y, k)"
  shows "length y = length sig"
proof (cases iir)
  case False
  with assms have "snd (filter_signal_fir ext sig fs pass_type fc n_cycles n_seconds
      plot_freq_response return_kernel transition_band_check remove_edge_artifacts) = Inr (y, k)"
    by (simp add: filter_signal_def)
  from fir_result[OF this] obtain x where "restore_nans x (snd (remove_nans sig)) = Inr y"
    by blast
  then show ?thesis using restore_nans_length length_snd_remove_nans by metis
next
  case True
  with assms have "snd (filter_signal_iir ext sig fs pass_type fc order
      plot_freq_response return_kernel transition_band_check) = Inr (y, k)"
    by (auto simp: filter_signal_def snd_then_do split: sum.splits)
  from iir_result[OF this] obtain x where "restore_nans x (snd (remove_nans sig)) = Inr y"
    by blast
  then show ?thesis using restore_nans_length length_snd_remove_nans by metis
qed

theorem output_length_preserved_witness:
  "snd (filter_signal boxcar_externals [NaN, Num 1, Num 2, Num 3, Num 4, Num 5] 1000 ''lowpass''
     (Scalar 100) 3 (Some (3 / 1000)) False None True False True True) =
     Inr ([NaN, NaN, NaN, Num 3, NaN, NaN], None) \<and>
   length [NaN, NaN, NaN, Num 3, NaN, NaN] = length [NaN, Num 1, Num 2, Num 3, Num 4, Num 5]"
proof -
  have h: "snd (filter_signal boxcar_externals [NaN, Num 1, Num 2, Num 3, Num 4, Num 5] 1000
     ''lowpass'' (Scalar 100) 3 (Some (3 / 1000)) False None True False True True) =
     Inr ([NaN, NaN, NaN, Num 3, NaN, NaN], None)"
    by (simp add: boxcar_example)
  from output_length_preserved[OF h] h show ?thesis by simp
qed

lemma flags_off:
  assumes "snd (filter_signal ext sig fs pass_type fc n_cycles n_seconds iir order
             plot_freq_response return_kernel transition_band_check remove_edge_artifacts) = Inr r"
  shows "snd (filter_signal ext sig fs pass_type fc n_cycles n_seconds iir order
             False return_kernel False remove_edge_artifacts) = Inr r"
proof (cases iir)
  case False
  obtain y k where r: "r = (y, k)" by (cases r)
  from False assms r have "snd (filter_signal_fir ext sig fs pass_type fc n_cycles n_seconds
      plot_freq_response return_kernel transition_band_check remove_edge_artifacts) = Inr (y, k)"
    by (simp add: filter_signal_def)
  from fir_result[OF this] show ?thesis
    using False r by (auto simp: filter_signal_def fir_result_plain)
next
  case True
  obtain y k where r: "r = (y, k)" by (cases r)
  from True assms r have c: "snd (iir_checks n_seconds order remove_edge_artifacts) = Inr ()"
    and "snd (filter_signal_iir ext sig fs pass_type fc order
      plot_freq_response return_kernel transition_band_check) = Inr (y, k)"
    by (auto simp: filter_signal_def snd_then_do split: sum.splits)
  from iir_result[OF this(2)] show ?thesis
    using True r c by (auto simp: filter_signal_def snd_then_do iir_result_plain)
qed

text \<open>
  Whenever \<open>filter_signal\<close> returns, the filtered signal and the kernel it returns are
  the ones it returns with the transition-band check and the plot switched off, and the
  ones it returns under any other setting of the two flags under which it returns: the
  check and the plot have no effect on the data that are returned.
\<close>

theorem checks_and_plot_do_not_change_result:
  assumes "snd (filter_signal ext sig fs pass_type fc n_cycles n_seconds iir order
             plot_freq_response return_kernel transition_band_check remove_edge_artifacts) = Inr r"
  shows "snd (filter_signal ext sig fs pass_type fc n_cycles n_seconds iir order
             False return_kernel False remove_edge_artifacts) = Inr r \<and>
         (\<forall>plot' check' r'.
            snd (filter_signal ext sig fs pass_type fc n_cycles n_seconds iir order
                   plot' return_kernel check' remove_edge_artifacts) = Inr r' \<longrightarrow> r' = r)"
proof (intro conjI allI impI)
  show a: "snd (filter_signal ext sig fs pass_type fc n_cycles n_seconds iir order
             False return_kernel False remove_edge_artifacts) = Inr r"
    using flags_off[OF assms] .
  fix plot' check' r'
  assume "snd (filter_signal ext sig fs pass_type fc n_cycles n_seconds iir order
                   plot' return_kernel check' remove_edge_artifacts) = Inr r'"
  from flags_off[OF this] a show "r' = r" by simp
qed

theorem checks_and_plot_do_not_change_result_witness:
  "snd (filter_signal boxcar_externals [NaN, Num 1, Num 2, Num 3, Num 4, Num 5] 1000 ''lowpass''
     (Scalar 100) 3 (Some (3 / 1000)) False None True False True True) =
     Inr ([NaN, NaN, NaN, Num 3, NaN, NaN], None) \<and>
   snd (filter_signal boxcar_externals [NaN, Num 1, Num 2, Num 3, Num 4, Num 5] 1000 ''lowpass''
     (Scalar 100) 3 (Some (3 / 1000)) False None False False False True) =
     Inr ([NaN, NaN, NaN, Num 3, NaN, NaN], None)"
proof -
  have h: "snd (filter_signal boxcar_externals [NaN, Num 1, Num 2, Num 3, Num 4, Num 5] 1000
     ''lowpass'' (Scalar 100) 3 (Some (3 / 1000)) False None True False True True) =
     Inr ([NaN, NaN, NaN, Num 3, NaN, NaN], None)"
    by (simp add: boxcar_example)
  from checks_and_plot_do_not_change_result[OF h] h show ?thesis by blast
qed

section \<open>NaN positions of the FIR output\<close>

lemma s_add_finite: "is_finite x \<Longrightarrow> is_finite y \<Longrightarrow> is_finite (s_add x y)"
  by (cases x; cases y) auto

lemma s_mul_finite: "is_finite x \<Longrightarrow> is_finite y \<Longrightarrow> is_finite (s_mul x y)"
  by (cases x; cases y) auto

lemma add_arrays_finite:
  "\<forall>x\<in>set xs. is_finite x \<Longrightarrow> \<forall>y\<in>set ys. is_finite y \<Longrightarrow>
   \<forall>z\<in>set (add_arrays xs ys). is_finite z"
  by (induction xs ys rule: add_arrays.induct) (auto simp: s_add_finite)

lemma length_add_arrays: "length (add_arrays xs ys) = max (length xs) (length ys)"
  by (induction xs ys rule: add_arrays.induct) auto

lemma convolve_full_finite:
  "\<forall>x\<in>set a. is_finite x \<Longrightarrow> \<forall>y\<in>set v. is_finite y \<Longrightarrow>
   \<forall>z\<in>set (convolve_full a v). is_finite z"
proof (induction a)
  case Nil
  show ?case by simp
next
  case (Cons x a)
  have p: "\<forall>z\<in>set (map (s_mul x) v). is_finite z"
    using Cons.prems by (auto simp: s_mul_finite)
  have q: "\<forall>z\<in>set (Num 0 # convolve_full a v). is_finite z"
    using Cons by auto
  show ?case
    unfolding convolve_full.simps using add_arrays_finite[OF p q] .
qed

lemma length_convolve_full:
  "a \<noteq> [] \<Longrightarrow> v \<noteq> [] \<Longrightarrow> length (convolve_full a v) = length a + length v - 1"
proof (induction a)
  case Nil
  then show ?case by simp
next
  case (Cons x a)
  show ?case
  proof (cases "a = []")
    case True
    with Cons.prems show ?thesis
      by (cases v) (auto simp: length_add_arrays)
  next
    case False
    with Cons show ?thesis by (auto simp: length_add_arrays)
  qed
qed

lemma convolve_same_Inr:
  assumes "convolve_same a v = Inr c"
  shows "a \<noteq> []" "v \<noteq> []" "length c = max (length a) (length v)"
proof -
  from assms show a: "a \<noteq> []" and v: "v \<noteq> []"
    by (auto simp: convolve_same_def split: if_splits)
  from assms a v have
    c: "c = take (max (length a) (length v))
              (drop ((min (length a) (length v) - 1) div 2) (convolve_full a v))"
    by (auto simp: convolve_same_def)
  have "length (convolve_full a v) = max (length a) (length v) + min (length a) (length v) - 1"
    using length_convolve_full[OF a v] by (cases "length a \<le> length v") auto
  moreover have "min (length a) (length v) \<ge> 1"
    using a v by (cases a; cases v) auto
  ultimately have "max (length a) (length v) \<le>
      length (convolve_full a v) - (min (length a) (length v) - 1) div 2"
    by linarith
  then show "length c = max (length a) (length v)"
    unfolding c by simp
qed

text \<open>
  The convolution of exact arithmetic keeps what numpy documents of \<^verbatim>\<open>np.convolve\<close>, and
  it introduces no NaN when the kernel and the samples are finite.
\<close>

lemma convolve_same_finite:
  assumes "convolve_same a v = Inr c"
      and "\<forall>x\<in>set a. is_finite x" and "\<forall>y\<in>set v. is_finite y"
  shows "\<forall>z\<in>set c. is_finite z"
proof -
  from assms(1) have
    "c = take (max (length a) (length v))
           (drop ((min (length a) (length v) - 1) div 2) (convolve_full a v))"
    by (auto simp: convolve_same_def split: if_splits)
  then have "set c \<subseteq> set (convolve_full a v)"
    by (metis set_take_subset set_drop_subset subset_trans)
  with convolve_full_finite[OF assms(2,3)] show ?thesis by blast
qed

lemma boxcar_convolve_unfold:
  "convolve boxcar_externals a v = (case convolve_same a v of Inl e \<Rightarrow> None | Inr c \<Rightarrow> Some c)"
  by (simp add: boxcar_externals_def)

lemma boxcar_contract: "convolve_same_contract boxcar_externals"
  unfolding convolve_same_contract_def boxcar_convolve_unfold
  using convolve_same_Inr by (auto split: sum.splits)

lemma boxcar_convolve_finite:
  assumes "convolve boxcar_externals a v = Some c"
      and "\<forall>x\<in>set a. is_finite x" and "\<forall>y\<in>set v. is_finite y"
  shows "NaN \<notin> set c"
proof -
  from assms(1) have "convolve_same a v = Inr c"
    by (simp add: boxcar_convolve_unfold split: sum.splits)
  from convolve_same_finite[OF this assms(2,3)] show ?thesis by auto
qed

lemma length_drop_edge_artifacts: "length (drop_edge_artifacts sig filt_len) = length sig"
proof -
  define n where "n = nat \<lceil>real filt_len / 2\<rceil>"
  define sig1 where "sig1 = replicate (min n (length sig)) NaN @ drop n sig"
  define start where "start = (if n = 0 then 0 else length sig1 - n)"
  have l1: "length sig1 = length sig" by (auto simp: sig1_def)
  have "drop_edge_artifacts sig filt_len = take start sig1 @ replicate (length sig1 - start) NaN"
    unfolding drop_edge_artifacts_def Let_def n_def[symmetric] sig1_def[symmetric]
      start_def[symmetric] ..
  moreover have "start \<le> length sig1" by (simp add: start_def)
  ultimately show ?thesis using l1 by simp
qed

lemma half_length_pos: "0 < filt_len \<Longrightarrow> 0 < nat \<lceil>real filt_len / 2\<rceil>"
  by (simp add: zero_less_nat_eq zero_less_ceiling)

lemma drop_edge_artifacts_nth:
  assumes "0 < filt_len" and "j < length sig"
  shows "drop_edge_artifacts sig filt_len ! j =
           (if j < nat \<lceil>real filt_len / 2\<rceil> \<or> length sig \<le> j + nat \<lceil>real filt_len / 2\<rceil>
            then NaN else sig ! j)"
proof -
  define n where "n = nat \<lceil>real filt_len / 2\<rceil>"
  have n: "0 < n" using half_length_pos[OF assms(1)] by (simp add: n_def)
  define sig1 where "sig1 = replicate (min n (length sig)) NaN @ drop n sig"
  have l1: "length sig1 = length sig" by (auto simp: sig1_def)
  have d: "drop_edge_artifacts sig filt_len =
             take (length sig - n) sig1 @ replicate (length sig - (length sig - n)) NaN"
    unfolding drop_edge_artifacts_def Let_def n_def[symmetric] sig1_def[symmetric]
    using n l1 by simp
  show ?thesis
  proof (cases "length sig \<le> j + n")
    case True
    then have "\<not> j < length sig - n" by simp
    with assms(2) True l1 show ?thesis
      unfolding d n_def[symmetric] by (simp add: nth_append)
  next
    case False
    then have j: "j < length sig - n" by simp
    then have "n \<le> length sig" by simp
    with j have "sig1 ! j = (if j < n then NaN else sig ! j)"
      by (auto simp: sig1_def nth_append min_def)
    with j False l1 show ?thesis
      unfolding d n_def[symmetric] by (simp add: nth_append)
  qed
qed

lemma put_mask_nth:
  "length vs = length (filter Not m) \<Longrightarrow> i < length m \<Longrightarrow>
   put_mask m vs ! i = (if m ! i then NaN else vs ! length (filter Not (take i m)))"
proof (induction m vs arbitrary: i rule: put_mask.induct)
  case (1 vs)
  then show ?case by simp
next
  case (2 m vs)
  then show ?case by (cases i) auto
next
  case (3 m)
  then show ?case by simp
next
  case (4 m v vs)
  then show ?case by (cases i) auto
qed

lemma valid_before_map: "length (filter Not (take i (map isnan xs))) = valid_before xs i"
  by (simp add: valid_before_def take_map filter_map comp_def)

lemma valid_before_less:
  assumes "i < length xs" and "\<not> isnan (xs ! i)"
  shows "valid_before xs i < length (filter (\<lambda>x. \<not> isnan x) xs)"
proof -
  have "xs = take i xs @ xs ! i # drop (Suc i) xs"
    using assms(1) by (simp add: id_take_nth_drop)
  then have "filter (\<lambda>x. \<not> isnan x) xs =
      filter (\<lambda>x. \<not> isnan x) (take i xs) @ xs ! i # filter (\<lambda>x. \<not> isnan x) (drop (Suc i) xs)"
    using assms(2) by (metis filter.simps(2) filter_append)
  then show ?thesis by (simp add: valid_before_def)
qed


lemma restored_nan_positions:
  assumes "length f = length (filter (\<lambda>x. \<not> isnan x) sig)"
  shows "nan_positions (put_mask (map isnan sig) f) =
         nan_positions sig \<union>
           {i. i < length sig \<and> \<not> isnan (sig ! i) \<and> isnan (f ! valid_before sig i)}"
proof -
  have len: "length f = length (filter Not (map isnan sig))"
    using assms by (metis count_valid)
  have nth: "put_mask (map isnan sig) f ! i =
          (if isnan (sig ! i) then NaN else f ! valid_before sig i)" if "i < length sig" for i
  proof -
    from that have "i < length (map isnan sig)" by simp
    from put_mask_nth[OF len this] show ?thesis
      unfolding valid_before_map using that by simp
  qed
  show ?thesis
  proof (rule set_eqI)
    fix i
    show "i \<in> nan_positions (put_mask (map isnan sig) f) \<longleftrightarrow>
          i \<in> nan_positions sig \<union>
           {i. i < length sig \<and> \<not> isnan (sig ! i) \<and> isnan (f ! valid_before sig i)}"
    proof (cases "i < length sig")
      case True
      with nth[OF True] show ?thesis
        by (simp add: nan_positions_def length_put_mask)
    next
      case False
      then show ?thesis by (simp add: nan_positions_def length_put_mask)
    qed
  qed
qed

lemma nan_positions_empty: "nan_positions xs = {} \<longleftrightarrow> (\<forall>x\<in>set xs. \<not> isnan x)"
proof
  assume "nan_positions xs = {}"
  then have "\<forall>i<length xs. \<not> isnan (xs ! i)" by (auto simp: nan_positions_def)
  then show "\<forall>x\<in>set xs. \<not> isnan x" by (metis in_set_conv_nth)
next
  assume "\<forall>x\<in>set xs. \<not> isnan x"
  then have "\<forall>i<length xs. \<not> isnan (xs ! i)" using nth_mem by blast
  then show "nan_positions xs = {}" by (auto simp: nan_positions_def)
qed

lemma valid_edge_positions_no_nan:
  assumes "nan_positions sig = {}"
  shows "valid_edge_positions sig n = {i. i < length sig \<and> (i < n \<or> length sig \<le> i + n)}"
proof -
  from assms have v: "\<forall>x\<in>set sig. \<not> isnan x"
    by (simp add: nan_positions_empty)
  then have a: "filter (\<lambda>x. \<not> isnan x) sig = sig" by simp
  have "filter (\<lambda>x. \<not> isnan x) (take i sig) = take i sig" for i
    using v by (meson filter_True in_set_takeD)
  then have b: "valid_before sig i = i" if "i < length sig" for i
    using that by (simp add: valid_before_def)
  show ?thesis
    unfolding valid_edge_positions_def a using v b by auto
qed

lemma restore_nans_Inr:
  assumes "restore_nans x m = Inr y"
  shows "length x = length (filter Not m) \<and> y = put_mask m x \<or> length x = 1"
  using assms by (auto simp: restore_nans_def Let_def split: if_splits)

lemma call_convolve_Inr: "call_convolve ext a v = Inr c \<longleftrightarrow> convolve ext a v = Some c"
  by (simp add: call_convolve_def split: option.splits)

text \<open>
  Claim C1, amended.  Whenever \<open>filter_signal\<close> returns with an FIR filter, and provided
  the convolution itself introduces no NaN, the output has NaN exactly at the NaN
  positions of the input when edge removal is off, and exactly at those positions and at
  the positions that hold the first and the last \<open>\<lceil>kernel_length / 2\<rceil>\<close> non-NaN samples of
  the input when it is on.  For an input without NaN these are the first and last
  \<open>\<lceil>kernel_length / 2\<rceil>\<close> positions of the signal.  Without the proviso, the output has NaN
  also at the positions whose convolved sample is NaN, and nowhere else.  The convolution
  is any function that keeps what numpy documents of \<^verbatim>\<open>np.convolve\<close> in mode \<^verbatim>\<open>'same'\<close>.
\<close>

theorem fir_nan_positions:
  assumes "snd (filter_signal ext sig fs pass_type fc n_cycles n_seconds False order
             plot_freq_response return_kernel transition_band_check remove_edge_artifacts) =
           Inr (y, k)"
      and "convolve_same_contract ext"
  shows "\<exists>kern c.
           design_fir_filter ext pass_type fc n_cycles n_seconds fs (int (length sig)) = Inr kern \<and>
           convolve ext (map Num kern) (fst (remove_nans sig)) = Some c \<and>
           nan_positions y =
             nan_positions sig \<union> nan_from_convolution sig c \<union>
               (if remove_edge_artifacts
                then valid_edge_positions sig (nat \<lceil>real (length kern) / 2\<rceil>) else {}) \<and>
           (NaN \<notin> set c \<longrightarrow>
              nan_positions y =
                nan_positions sig \<union>
                  (if remove_edge_artifacts
                   then valid_edge_positions sig (nat \<lceil>real (length kern) / 2\<rceil>) else {})) \<and>
           (NaN \<notin> set c \<and> remove_edge_artifacts \<and> nan_positions sig = {} \<longrightarrow>
              nan_positions y =
                {i. i < length sig \<and>
                    (i < nat \<lceil>real (length kern) / 2\<rceil> \<or>
                     length sig \<le> i + nat \<lceil>real (length kern) / 2\<rceil>)})"
proof -
  define sig' where "sig' = filter (\<lambda>x. \<not> isnan x) sig"
  have r: "fst (remove_nans sig) = sig'" "snd (remove_nans sig) = map isnan sig"
    by (simp_all add: remove_nans_def sig'_def)
  from assms(1) have "snd (filter_signal_fir ext sig fs pass_type fc n_cycles n_seconds
      plot_freq_response return_kernel transition_band_check remove_edge_artifacts) = Inr (y, k)"
    by (simp add: filter_signal_def)
  from fir_result[OF this] obtain kern c where
    d: "design_fir_filter ext pass_type fc n_cycles n_seconds fs (int (length sig)) = Inr kern"
    and cc: "call_convolve ext (map Num kern) sig' = Inr c"
    and y: "restore_nans (if remove_edge_artifacts then drop_edge_artifacts c (length kern) else c)
              (map isnan sig) = Inr y"
    unfolding r by blast
  from cc have c: "convolve ext (map Num kern) sig' = Some c"
    by (simp add: call_convolve_Inr)
  define n where "n = nat \<lceil>real (length kern) / 2\<rceil>"
  define f where "f = (if remove_edge_artifacts then drop_edge_artifacts c (length kern) else c)"
  from assms(2) c have "map Num kern \<noteq> [] \<and> sig' \<noteq> [] \<and>
      length c = max (length (map Num kern)) (length sig')"
    unfolding convolve_same_contract_def by blast
  then have kern: "kern \<noteq> []" and sig': "sig' \<noteq> []"
    and lc: "length c = max (length kern) (length sig')"
    by simp_all
  have lf: "length f = length c"
    by (simp add: f_def length_drop_edge_artifacts)
  have cnt: "length (filter Not (map isnan sig)) = length sig'"
    unfolding sig'_def by (rule count_valid)
  from y have y': "restore_nans f (map isnan sig) = Inr y"
    unfolding f_def .
  have lf': "length f = length sig'"
  proof (rule ccontr)
    assume ne: "length f \<noteq> length sig'"
    with restore_nans_Inr[OF y'] cnt have one: "length f = 1" by simp
    from sig' have "1 \<le> length sig'" by (cases sig') simp_all
    with one lf lc have "length sig' = 1" by simp
    with one ne show False by simp
  qed
  have "restore_nans f (map isnan sig) = Inr (put_mask (map isnan sig) f)"
    using lf' cnt by (simp add: restore_nans_def Let_def)
  with y' have y_eq: "y = put_mask (map isnan sig) f" by simp
  have pos: "nan_positions y = nan_positions sig \<union>
           {i. i < length sig \<and> \<not> isnan (sig ! i) \<and> isnan (f ! valid_before sig i)}"
    unfolding y_eq using restored_nan_positions[of f sig] lf' by (simp add: sig'_def)
  have lcs: "length c = length sig'" using lf lf' by simp
  have inner: "isnan (f ! valid_before sig i) \<longleftrightarrow>
        isnan (c ! valid_before sig i) \<or>
        remove_edge_artifacts \<and> (valid_before sig i < n \<or> length sig' \<le> valid_before sig i + n)"
    if i: "i < length sig" "\<not> isnan (sig ! i)" for i
  proof -
    have j: "valid_before sig i < length c"
      using valid_before_less[OF i] lcs by (simp add: sig'_def)
    have "0 < length kern" using kern by simp
    from drop_edge_artifacts_nth[OF this j] lcs show ?thesis
      by (simp add: f_def n_def)
  qed
  have main: "nan_positions y = nan_positions sig \<union> nan_from_convolution sig c \<union>
      (if remove_edge_artifacts then valid_edge_positions sig n else {})"
  proof (rule set_eqI)
    fix i
    show "i \<in> nan_positions y \<longleftrightarrow> i \<in> nan_positions sig \<union> nan_from_convolution sig c \<union>
      (if remove_edge_artifacts then valid_edge_positions sig n else {})"
    proof (cases "i < length sig \<and> \<not> isnan (sig ! i)")
      case True
      then have "i < length sig" and "\<not> isnan (sig ! i)" by simp_all
      from inner[OF this] True show ?thesis
        unfolding pos valid_edge_positions_def nan_from_convolution_def sig'_def[symmetric]
        by (simp add: nan_positions_def)
    next
      case False
      then show ?thesis
        unfolding pos valid_edge_positions_def nan_from_convolution_def sig'_def[symmetric]
        by (auto simp: nan_positions_def)
    qed
  qed
  have none: "nan_from_convolution sig c = {}" if "NaN \<notin> set c"
  proof -
    have "\<not> isnan (c ! valid_before sig i)" if i: "i < length sig" "\<not> isnan (sig ! i)" for i
    proof -
      have "valid_before sig i < length c"
        using valid_before_less[OF i] lcs by (simp add: sig'_def)
      then have "c ! valid_before sig i \<in> set c" by simp
      with \<open>NaN \<notin> set c\<close> show ?thesis
        by (cases "c ! valid_before sig i") auto
    qed
    then show ?thesis by (auto simp: nan_from_convolution_def)
  qed
  have proviso: "NaN \<notin> set c \<longrightarrow> nan_positions y = nan_positions sig \<union>
      (if remove_edge_artifacts then valid_edge_positions sig n else {})"
    using main none by simp
  have plain: "NaN \<notin> set c \<and> remove_edge_artifacts \<and> nan_positions sig = {} \<longrightarrow>
      nan_positions y = {i. i < length sig \<and> (i < n \<or> length sig \<le> i + n)}"
    using proviso valid_edge_positions_no_nan[of sig n] by simp
  show ?thesis
    by (rule exI[of _ kern], rule exI[of _ c])
       (intro conjI d c[folded r(1)] main[unfolded n_def] proviso[unfolded n_def]
          plain[unfolded n_def])
qed

lemma boxcar_design5:
  "design_fir_filter boxcar_externals ''lowpass'' (Scalar 100) 3 (Some (3 / 1000)) 1000 5 =
     Inr [1 / 3, 1 / 3, 1 / 3]"
  by (simp add: design_fir_filter_def check_filter_definition_def fir_checks_def fl_times_def
      boxcar_fl call_firwin_def boxcar_firwin invalid_cutoff_def compute_nyquist_def
      numeral_eq_Suc)

lemma boxcar_restore5:
  "restore_nans [NaN, NaN, Num 3, NaN, NaN] [False, False, False, False, False] =
     Inr [NaN, NaN, Num 3, NaN, NaN]"
  by (simp add: restore_nans_def)

lemma boxcar_example_clean:
  "filter_signal boxcar_externals [Num 1, Num 2, Num 3, Num 4, Num 5] 1000 ''lowpass''
     (Scalar 100) 3 (Some (3 / 1000)) False None False False False True =
   ([], Inr ([NaN, NaN, Num 3, NaN, NaN], None))"
  by (simp add: filter_signal_def filter_signal_fir_def boxcar_design5
      boxcar_convolve boxcar_edges boxcar_restore5 then_do_def lift_def remove_nans_def
      call_plot_def)

lemma half_of_three: "nat \<lceil>real (length [1 / 3, 1 / 3, 1 / 3 :: real]) / 2\<rceil> = 2"
proof -
  have "\<lceil>(3::real) / 2\<rceil> = 2" by (simp add: ceiling_eq_iff)
  then show ?thesis by simp
qed

text \<open>
  Claim C1.  With edge removal on, the output is said to have NaN exactly at the NaN
  positions of the input and at the first and last \<open>\<lceil>kernel_length / 2\<rceil>\<close> positions of the
  signal.  The edges are dropped on the signal with its NaNs stripped, before the NaNs are
  put back: for six samples of which the first is NaN and a kernel of three taps, position
  \<open>2\<close> of the output is NaN, though the input has a value there and \<open>2\<close> is not among the
  first two or the last two positions.
\<close>

theorem fir_edge_positions_counterexample:
  "snd (filter_signal boxcar_externals [NaN, Num 1, Num 2, Num 3, Num 4, Num 5] 1000 ''lowpass''
     (Scalar 100) 3 (Some (3 / 1000)) False None True False True True) =
     Inr ([NaN, NaN, NaN, Num 3, NaN, NaN], None) \<and>
   design_fir_filter boxcar_externals ''lowpass'' (Scalar 100) 3 (Some (3 / 1000)) 1000
     (int (length [NaN, Num 1, Num 2, Num 3, Num 4, Num 5])) = Inr [1 / 3, 1 / 3, 1 / 3] \<and>
   nat \<lceil>real (length [1 / 3, 1 / 3, 1 / 3 :: real]) / 2\<rceil> = 2 \<and>
   2 \<in> nan_positions [NaN, NaN, NaN, Num 3, NaN, NaN] \<and>
   2 \<notin> nan_positions [NaN, Num 1, Num 2, Num 3, Num 4, Num 5] \<and>
   \<not> (2 < (2::nat)) \<and>
   \<not> (length [NaN, Num 1, Num 2, Num 3, Num 4, Num 5] \<le> 2 + 2)"
  using half_of_three by (simp add: boxcar_example boxcar_design nan_positions_def)

text \<open>
  A run with infinite samples: the convolution meets \<open>inf - inf\<close> and introduces NaN at
  positions \<open>4\<close> and \<open>5\<close>.
\<close>

lemma boxcar_conv5:
  "convolve boxcar_externals [Num (1 / 3), Num (1 / 3), Num (1 / 3)]
     [Num 1, Num 2, Num 3, Num 4, Num 5] = Some [Num 1, Num 2, Num 3, Num 4, Num 3]"
  using boxcar_convolve by (simp add: call_convolve_Inr)

lemma boxcar_conv_inf:
  "convolve boxcar_externals [Num (1 / 3), Num (1 / 3), Num (1 / 3)]
     [Num 1, Num 2, Num 3, Num 4, PInf, NInf, Num 7, Num 8] =
     Some [Num 1, Num 2, Num 3, PInf, NaN, NaN, NInf, Num 5]"
  by (simp add: boxcar_convolve_unfold convolve_same_def)

lemma boxcar_design8:
  "design_fir_filter boxcar_externals ''lowpass'' (Scalar 100) 3 (Some (3 / 1000)) 1000 8 =
     Inr [1 / 3, 1 / 3, 1 / 3]"
  by (simp add: design_fir_filter_def check_filter_definition_def fir_checks_def fl_times_def
      boxcar_fl call_firwin_def boxcar_firwin invalid_cutoff_def compute_nyquist_def
      numeral_eq_Suc)

lemma boxcar_example_inf:
  "filter_signal boxcar_externals [Num 1, Num 2, Num 3, Num 4, PInf, NInf, Num 7, Num 8] 1000
     ''lowpass'' (Scalar 100) 3 (Some (3 / 1000)) False None False False False False =
   ([], Inr ([Num 1, Num 2, Num 3, PInf, NaN, NaN, NInf, Num 5], None))"
  by (simp add: filter_signal_def filter_signal_fir_def boxcar_design8 call_convolve_def
      boxcar_conv_inf then_do_def lift_def remove_nans_def restore_nans_def call_plot_def)

theorem fir_nan_positions_witness:
  "snd (filter_signal boxcar_externals [NaN, Num 1, Num 2, Num 3, Num 4, Num 5] 1000 ''lowpass''
     (Scalar 100) 3 (Some (3 / 1000)) False None True False True True) =
     Inr ([NaN, NaN, NaN, Num 3, NaN, NaN], None) \<and>
   nan_positions [NaN, NaN, NaN, Num 3, NaN, NaN] =
     nan_positions [NaN, Num 1, Num 2, Num 3, Num 4, Num 5] \<union>
     valid_edge_positions [NaN, Num 1, Num 2, Num 3, Num 4, Num 5] 2 \<and>
   snd (filter_signal boxcar_externals [NaN, Num 1, Num 2, Num 3, Num 4, Num 5] 1000 ''lowpass''
     (Scalar 100) 3 (Some (3 / 1000)) False None True True False False) =
     Inr ([NaN, Num 1, Num 2, Num 3, Num 4, Num 3], Some (FIR [1 / 3, 1 / 3, 1 / 3])) \<and>
   nan_positions [NaN, Num 1, Num 2, Num 3, Num 4, Num 3] =
     nan_positions [NaN, Num 1, Num 2, Num 3, Num 4, Num 5] \<and>
   nan_positions [Num 1, Num 2, Num 3, Num 4, Num 5] = {} \<and>
   snd (filter_signal boxcar_externals [Num 1, Num 2, Num 3, Num 4, Num 5] 1000 ''lowpass''
     (Scalar 100) 3 (Some (3 / 1000)) False None False False False True) =
     Inr ([NaN, NaN, Num 3, NaN, NaN], None) \<and>
   nan_positions [NaN, NaN, Num 3, NaN, NaN] =
     {i. i < length [Num 1, Num 2, Num 3, Num 4, Num 5] \<and>
         (i < 2 \<or> length [Num 1, Num 2, Num 3, Num 4, Num 5] \<le> i + 2)} \<and>
   snd (filter_signal boxcar_externals [Num 1, Num 2, Num 3, Num 4, PInf, NInf, Num 7, Num 8]
     1000 ''lowpass'' (Scalar 100) 3 (Some (3 / 1000)) False None False False False False) =
     Inr ([Num 1, Num 2, Num 3, PInf, NaN, NaN, NInf, Num 5], None) \<and>
   nan_positions [Num 1, Num 2, Num 3, PInf, NaN, NaN, NInf, Num 5] =
     nan_positions [Num 1, Num 2, Num 3, Num 4, PInf, NInf, Num 7, Num 8] \<union>
     nan_from_convolution [Num 1, Num 2, Num 3, Num 4, PInf, NInf, Num 7, Num 8]
       [Num 1, Num 2, Num 3, PInf, NaN, NaN, NInf, Num 5]"
proof -
  have h1: "snd (filter_signal boxcar_externals [NaN, Num 1, Num 2, Num 3, Num 4, Num 5] 1000
     ''lowpass'' (Scalar 100) 3 (Some (3 / 1000)) False None True False True True) =
     Inr ([NaN, NaN, NaN, Num 3, NaN, NaN], None)"
    by (simp add: boxcar_example)
  have h2: "snd (filter_signal boxcar_externals [NaN, Num 1, Num 2, Num 3, Num 4, Num 5] 1000
     ''lowpass'' (Scalar 100) 3 (Some (3 / 1000)) False None True True False False) =
     Inr ([NaN, Num 1, Num 2, Num 3, Num 4, Num 3], Some (FIR [1 / 3, 1 / 3, 1 / 3]))"
    by (simp add: boxcar_example_no_edges)
  have h3: "snd (filter_signal boxcar_externals [Num 1, Num 2, Num 3, Num 4, Num 5] 1000
     ''lowpass'' (Scalar 100) 3 (Some (3 / 1000)) False None False False False True) =
     Inr ([NaN, NaN, Num 3, NaN, NaN], None)"
    by (simp add: boxcar_example_clean)
  have h4: "snd (filter_signal boxcar_externals
     [Num 1, Num 2, Num 3, Num 4, PInf, NInf, Num 7, Num 8]
     1000 ''lowpass'' (Scalar 100) 3 (Some (3 / 1000)) False None False False False False) =
     Inr ([Num 1, Num 2, Num 3, PInf, NaN, NaN, NInf, Num 5], None)"
    by (simp add: boxcar_example_inf)
  have e: "nan_positions [Num 1, Num 2, Num 3, Num 4, Num 5] = {}"
    by (simp add: nan_positions_empty)
  have r6: "fst (remove_nans [NaN, Num 1, Num 2, Num 3, Num 4, Num 5]) =
      [Num 1, Num 2, Num 3, Num 4, Num 5]"
    and r5: "fst (remove_nans [Num 1, Num 2, Num 3, Num 4, Num 5]) =
      [Num 1, Num 2, Num 3, Num 4, Num 5]"
    and r8: "fst (remove_nans [Num 1, Num 2, Num 3, Num 4, PInf, NInf, Num 7, Num 8]) =
      [Num 1, Num 2, Num 3, Num 4, PInf, NInf, Num 7, Num 8]"
    by (simp_all add: remove_nans_def)
  have 1: "nan_positions [NaN, NaN, NaN, Num 3, NaN, NaN] =
     nan_positions [NaN, Num 1, Num 2, Num 3, Num 4, Num 5] \<union>
     valid_edge_positions [NaN, Num 1, Num 2, Num 3, Num 4, Num 5] 2"
  proof -
    from fir_nan_positions[OF h1 boxcar_contract] obtain kern c where
      k: "design_fir_filter boxcar_externals ''lowpass'' (Scalar 100) 3 (Some (3 / 1000)) 1000
            (int (length [NaN, Num 1, Num 2, Num 3, Num 4, Num 5])) = Inr kern"
      and c: "convolve boxcar_externals (map Num kern)
            (fst (remove_nans [NaN, Num 1, Num 2, Num 3, Num 4, Num 5])) = Some c"
      and p: "NaN \<notin> set c \<longrightarrow> nan_positions [NaN, NaN, NaN, Num 3, NaN, NaN] =
            nan_positions [NaN, Num 1, Num 2, Num 3, Num 4, Num 5] \<union>
            (if True then valid_edge_positions [NaN, Num 1, Num 2, Num 3, Num 4, Num 5]
               (nat \<lceil>real (length kern) / 2\<rceil>) else {})"
      by blast
    from k have kern: "kern = [1 / 3, 1 / 3, 1 / 3]" by (simp add: boxcar_design)
    with c have "c = [Num 1, Num 2, Num 3, Num 4, Num 3]" by (simp add: r6 boxcar_conv5)
    then have "NaN \<notin> set c" by simp
    with p half_of_three show ?thesis unfolding kern by simp
  qed
  have 2: "nan_positions [NaN, Num 1, Num 2, Num 3, Num 4, Num 3] =
     nan_positions [NaN, Num 1, Num 2, Num 3, Num 4, Num 5]"
  proof -
    from fir_nan_positions[OF h2 boxcar_contract] obtain kern c where
      k: "design_fir_filter boxcar_externals ''lowpass'' (Scalar 100) 3 (Some (3 / 1000)) 1000
            (int (length [NaN, Num 1, Num 2, Num 3, Num 4, Num 5])) = Inr kern"
      and c: "convolve boxcar_externals (map Num kern)
            (fst (remove_nans [NaN, Num 1, Num 2, Num 3, Num 4, Num 5])) = Some c"
      and p: "NaN \<notin> set c \<longrightarrow> nan_positions [NaN, Num 1, Num 2, Num 3, Num 4, Num 3] =
            nan_positions [NaN, Num 1, Num 2, Num 3, Num 4, Num 5] \<union>
            (if False then valid_edge_positions [NaN, Num 1, Num 2, Num 3, Num 4, Num 5]
               (nat \<lceil>real (length kern) / 2\<rceil>) else {})"
      by blast
    from k have kern: "kern = [1 / 3, 1 / 3, 1 / 3]" by (simp add: boxcar_design)
    with c have "c = [Num 1, Num 2, Num 3, Num 4, Num 3]" by (simp add: r6 boxcar_conv5)
    then have "NaN \<notin> set c" by simp
    with p show ?thesis by simp
  qed
  have 3: "nan_positions [NaN, NaN, Num 3, NaN, NaN] =
     {i. i < length [Num 1, Num 2, Num 3, Num 4, Num 5] \<and>
         (i < 2 \<or> length [Num 1, Num 2, Num 3, Num 4, Num 5] \<le> i + 2)}"
  proof -
    from fir_nan_positions[OF h3 boxcar_contract] obtain kern c where
      k: "design_fir_filter boxcar_externals ''lowpass'' (Scalar 100) 3 (Some (3 / 1000)) 1000
            (int (length [Num 1, Num 2, Num 3, Num 4, Num 5])) = Inr kern"
      and c: "convolve boxcar_externals (map Num kern)
            (fst (remove_nans [Num 1, Num 2, Num 3, Num 4, Num 5])) = Some c"
      and p: "NaN \<notin> set c \<and> True \<and> nan_positions [Num 1, Num 2, Num 3, Num 4, Num 5] = {} \<longrightarrow>
            nan_positions [NaN, NaN, Num 3, NaN, NaN] =
            {i. i < length [Num 1, Num 2, Num 3, Num 4, Num 5] \<and>
                (i < nat \<lceil>real (length kern) / 2\<rceil> \<or>
                 length [Num 1, Num 2, Num 3, Num 4, Num 5] \<le>
                   i + nat \<lceil>real (length kern) / 2\<rceil>)}"
      by blast
    from k have kern: "kern = [1 / 3, 1 / 3, 1 / 3]" by (simp add: boxcar_design5)
    with c have "c = [Num 1, Num 2, Num 3, Num 4, Num 3]" by (simp add: r5 boxcar_conv5)
    then have "NaN \<notin> set c" by simp
    with p e half_of_three show ?thesis unfolding kern by simp
  qed
  have 4: "nan_positions [Num 1, Num 2, Num 3, PInf, NaN, NaN, NInf, Num 5] =
     nan_positions [Num 1, Num 2, Num 3, Num 4, PInf, NInf, Num 7, Num 8] \<union>
     nan_from_convolution [Num 1, Num 2, Num 3, Num 4, PInf, NInf, Num 7, Num 8]
       [Num 1, Num 2, Num 3, PInf, NaN, NaN, NInf, Num 5]"
  proof -
    from fir_nan_positions[OF h4 boxcar_contract] obtain kern c where
      k: "design_fir_filter boxcar_externals ''lowpass'' (Scalar 100) 3 (Some (3 / 1000)) 1000
            (int (length [Num 1, Num 2, Num 3, Num 4, PInf, NInf, Num 7, Num 8])) = Inr kern"
      and c: "convolve boxcar_externals (map Num kern)
            (fst (remove_nans [Num 1, Num 2, Num 3, Num 4, PInf, NInf, Num 7, Num 8])) = Some c"
      and p: "nan_positions [Num 1, Num 2, Num 3, PInf, NaN, NaN, NInf, Num 5] =
            nan_positions [Num 1, Num 2, Num 3, Num 4, PInf, NInf, Num 7, Num 8] \<union>
            nan_from_convolution [Num 1, Num 2, Num 3, Num 4, PInf, NInf, Num 7, Num 8] c \<union>
            (if False then valid_edge_positions
               [Num 1, Num 2, Num 3, Num 4, PInf, NInf, Num 7, Num 8]
               (nat \<lceil>real (length kern) / 2\<rceil>) else {})"
      by blast
    from k have kern: "kern = [1 / 3, 1 / 3, 1 / 3]" by (simp add: boxcar_design8)
    with c have "c = [Num 1, Num 2, Num 3, PInf, NaN, NaN, NInf, Num 5]"
      by (simp add: r8 boxcar_conv_inf)
    with p show ?thesis by simp
  qed
  from h1 1 h2 2 e h3 3 h4 4 show ?thesis by blast
qed

section \<open>The transition-band check can raise\<close>

text \<open>
  \<open>compute_transition_band\<close> pairs up the places where the response enters and leaves the
  band between the two thresholds.  A response with no sample inside the band has no such
  place, the list of pairs is empty, and \<^verbatim>\<open>np.max\<close> of the empty list raises.
\<close>

lemma np_diff_bool_all_false: "True \<notin> set m \<Longrightarrow> True \<notin> set (np_diff_bool m)"
  by (induction m rule: np_diff_bool.induct) auto

lemma np_where_all_false:
  assumes "True \<notin> set m"
  shows "np_where m = []"
proof -
  have "\<not> m ! i" if "i < length m" for i
    using assms nth_mem[OF that] by metis
  then show ?thesis
    by (simp add: np_where_def filter_empty_conv)
qed

lemma compute_transition_band_no_crossing:
  assumes "\<forall>d\<in>set db. \<not> (low < d \<and> d < high)"
  shows "compute_transition_band f_db db low high = Inl EmptyReduction"
proof -
  have "True \<notin> set (map (\<lambda>d. d > low \<and> d < high) db)"
    using assms by auto
  then have "True \<notin> set (np_diff_bool (map (\<lambda>d. d > low \<and> d < high) db))"
    by (rule np_diff_bool_all_false)
  then have "np_where (np_diff_bool (map (\<lambda>d. d > low \<and> d < high) db)) = []"
    by (rule np_where_all_false)
  then show ?thesis
    by (simp add: compute_transition_band_def)
qed

lemma compute_pass_band_Inr:
  assumes "check_filter_definition pass_type fc = Inr r"
  shows "\<exists>bw. compute_pass_band pass_type fc fs = Inr bw"
proof -
  obtain f_lo f_hi where r: "r = (f_lo, f_hi)" by (cases r)
  from cfd_types[OF assms] consider "pass_type = ''bandpass'' \<or> pass_type = ''bandstop''"
    | "pass_type = ''lowpass''" | "pass_type = ''highpass''" by auto
  then show ?thesis
  proof cases
    case 1
    from assms r have "check_filter_definition pass_type fc = Inr (f_lo, f_hi)" by simp
    then obtain lo hi where "f_lo = Some lo" "f_hi = Some hi"
      unfolding cfd_band[OF 1] by auto
    with 1 assms r show ?thesis by (auto simp: compute_pass_band_def)
  next
    case 2
    with assms r have "check_filter_definition ''lowpass'' fc = Inr (f_lo, f_hi)" by simp
    then obtain hi where "f_hi = Some hi"
      unfolding cfd_lowpass by auto
    with 2 assms r show ?thesis by (simp add: compute_pass_band_def)
  next
    case 3
    with assms r have "check_filter_definition ''highpass'' fc = Inr (f_lo, f_hi)" by simp
    then obtain lo where "f_lo = Some lo"
      unfolding cfd_highpass by auto
    with 3 assms r show ?thesis by (simp add: compute_pass_band_def)
  qed
qed

lemma check_raises_without_crossing:
  assumes "check_filter_definition pass_type fc = Inr r"
      and "freqz_db ext b a = (u, db)"
      and "np_min db = Inr lowest" and "lowest < - 20"
      and "\<forall>d\<in>set db. \<not> (- 20 < d \<and> d < - 3)"
  shows "snd (check_filter_properties ext b a fs pass_type fc (- 20, - 3)) = Inl EmptyReduction"
proof -
  from compute_pass_band_Inr[OF assms(1)] obtain bw where
    bw: "compute_pass_band pass_type fc fs = Inr bw" by blast
  have t: "compute_transition_band f_db db (- 20) (- 3) = Inl EmptyReduction" for f_db
    using compute_transition_band_no_crossing[OF assms(5)] .
  show ?thesis
    using assms(1-4) bw t
    by (simp add: check_filter_properties_def snd_then_do snd_lift
        compute_frequency_response_def)
qed

lemma fir_returns:
  assumes "design_fir_filter ext pass_type fc n_cycles n_seconds fs (int (length sig)) = Inr kern"
      and "convolve_same_contract ext"
      and "convolve ext (map Num kern) (filter (\<lambda>x. \<not> isnan x) sig) = Some c"
      and "length kern \<le> length (filter (\<lambda>x. \<not> isnan x) sig)"
  shows "\<not> isl (snd (filter_signal ext sig fs pass_type fc n_cycles n_seconds False order
             False return_kernel False remove_edge_artifacts))"
proof -
  define sig' where "sig' = filter (\<lambda>x. \<not> isnan x) sig"
  have r: "fst (remove_nans sig) = sig'" "snd (remove_nans sig) = map isnan sig"
    by (simp_all add: remove_nans_def sig'_def)
  from assms(3) have c: "call_convolve ext (map Num kern) sig' = Inr c"
    by (simp add: call_convolve_def sig'_def)
  from assms(2,3) have "length c = max (length (map Num kern)) (length sig')"
    unfolding convolve_same_contract_def sig'_def by blast
  with assms(4) have lc: "length c = length sig'"
    by (simp add: sig'_def)
  define f where "f = (if remove_edge_artifacts then drop_edge_artifacts c (length kern) else c)"
  have "length f = length (filter Not (map isnan sig))"
    using lc count_valid[of sig] by (simp add: f_def length_drop_edge_artifacts sig'_def)
  then have "restore_nans f (map isnan sig) = Inr (put_mask (map isnan sig) f)"
    by (simp add: restore_nans_def Let_def)
  with assms(1) c show ?thesis
    unfolding filter_signal_def
    by (simp add: fir_result_plain r f_def)
qed

lemma sharp_fields:
  "fl sharp_externals = fl boxcar_externals"
  "convolve sharp_externals = convolve boxcar_externals"
  "firwin sharp_externals = firwin boxcar_externals"
  "freqz_db sharp_externals b a = ([0, 1 / 512, 2 / 512], [- 55, 0, 0])"
  by (simp_all add: sharp_externals_def)

lemma sharp_contract: "convolve_same_contract sharp_externals"
  using boxcar_contract by (simp add: convolve_same_contract_def sharp_fields)

lemma sharp_design:
  "design_fir_filter sharp_externals ''highpass'' (Scalar (1 / 2)) 3 None 1000 10000 =
     Inr (replicate 6001 (1 / 6001))"
  by (simp add: design_fir_filter_def check_filter_definition_def fir_checks_def fl_times_def
      sharp_fields boxcar_fl call_firwin_def boxcar_firwin invalid_cutoff_def
      compute_nyquist_def)

text \<open>
  Claim C8.  The transition-band check is said never to block the computation, so that
  the data returned are the same with the check on and off.  For a highpass filter at
  \<open>0.5\<close> Hz on \<open>10000\<close> samples at \<open>fs = 1000\<close> the kernel has \<open>6001\<close> taps, and its
  transition is narrower than the spacing of the frequencies at which the response is
  sampled: the sample at \<open>0\<close> Hz lies in the stop band, all the others in the pass band.
  With the check on the call raises in \<open>compute_transition_band\<close>; with the check off it
  returns.
\<close>

theorem transition_check_blocks:
  "snd (filter_signal sharp_externals (replicate 10000 (Num 1)) 1000 ''highpass''
          (Scalar (1 / 2)) 3 None False None False False True True) = Inl EmptyReduction \<and>
   \<not> isl (snd (filter_signal sharp_externals (replicate 10000 (Num 1)) 1000 ''highpass''
          (Scalar (1 / 2)) 3 None False None False False False True))"
proof -
  have d: "design_fir_filter sharp_externals ''highpass'' (Scalar (1 / 2)) 3 None 1000
             (int (length (replicate 10000 (Num 1)))) = Inr (replicate 6001 (1 / 6001))"
    by (simp add: sharp_design)
  have cfd: "check_filter_definition ''highpass'' (Scalar (1 / 2)) = Inr (Some (1 / 2), None)"
    by (simp add: check_filter_definition_def)
  have fz: "freqz_db sharp_externals (replicate 6001 (1 / 6001)) [1] =
      ([0, 1 / 512, 2 / 512], [- 55, 0, 0])"
    by (simp add: sharp_fields)
  have "snd (check_filter_properties sharp_externals (replicate 6001 (1 / 6001)) [1] 1000
          ''highpass'' (Scalar (1 / 2)) (- 20, - 3)) = Inl EmptyReduction"
    by (rule check_raises_without_crossing[OF cfd fz, of "- 55"]) simp_all
  with d have 1: "snd (filter_signal sharp_externals (replicate 10000 (Num 1)) 1000 ''highpass''
          (Scalar (1 / 2)) 3 None False None False False True True) = Inl EmptyReduction"
    by (simp add: filter_signal_def filter_signal_fir_def snd_then_do snd_lift)
  have "length (replicate 6001 (1 / 6001 :: real)) \<le>
        length (filter (\<lambda>x. \<not> isnan x) (replicate 10000 (Num 1)))"
    by simp
  moreover obtain c where "convolve sharp_externals (map Num (replicate 6001 (1 / 6001)))
      (filter (\<lambda>x. \<not> isnan x) (replicate 10000 (Num 1))) = Some c"
    by (simp add: sharp_fields boxcar_convolve_unfold convolve_same_def)
  ultimately have 2:
    "\<not> isl (snd (filter_signal sharp_externals (replicate 10000 (Num 1)) 1000 ''highpass''
          (Scalar (1 / 2)) 3 None False None False False False True))"
    using fir_returns[OF d sharp_contract] by blast
  from 1 2 show ?thesis by simp
qed

end
